theory Spec2Isabelle
  imports Complex_Main "HOL-Library.Char_ord" "HOL-Library.List_Lexorder"
    "HOL-Library.Product_Lexorder" "HOL-Library.Multiset"
begin

section \<open>JavaScript numbers\<close>

text \<open>
  A JavaScript Number is an IEEE 754 binary64 value. \<open>Finite s m e\<close> stands for
  \<open>(-1)\<^sup>s * m * 2\<^sup>e\<close>; the values that exist in binary64 are those with \<open>m < 2\<^sup>5\<^sup>3\<close> and
  \<open>-1074 \<le> e \<le> 971\<close>, written with \<open>e = -1074\<close> when \<open>m < 2\<^sup>5\<^sup>2\<close> (zero and the subnormal
  numbers). The sign is \<open>True\<close> for a negative number, so \<open>Finite True 0 (-1074)\<close> is \<open>-0\<close>.
\<close>

datatype number = NaN | Infinity bool | Finite bool nat int

fun bit_length :: "nat \<Rightarrow> nat" where
  "bit_length n = (if n = 0 then 0 else Suc (bit_length (n div 2)))"

declare bit_length.simps [simp del]

text \<open>\<open>floor_log2 n d\<close> is \<open>\<lfloor>log\<^sub>2 (n / d)\<rfloor>\<close> for positive \<open>n\<close> and \<open>d\<close>.\<close>

definition floor_log2 :: "nat \<Rightarrow> nat \<Rightarrow> int" where
  "floor_log2 n d =
     (let k = int (bit_length n) - int (bit_length d)
      in if (if 0 \<le> k then d * 2 ^ nat k \<le> n else d \<le> n * 2 ^ nat (- k)) then k else k - 1)"

text \<open>The integer nearest to \<open>n / d\<close>, the even one of the two when \<open>n / d\<close> is half way.\<close>

definition round_half_even :: "nat \<Rightarrow> nat \<Rightarrow> nat" where
  "round_half_even n d =
     (let q = n div d; r = n mod d
      in if 2 * r < d then q else if d < 2 * r then q + 1 else if even q then q else q + 1)"

text \<open>
  Rounding of the exact value \<open>(-1)\<^sup>s * n / d\<close> to binary64, to nearest, ties to even: 53
  bits of significand, the exponent of the last place not below \<open>-1074\<close>, overflow to an
  infinity.
\<close>

definition round_binary64 :: "bool \<Rightarrow> nat \<Rightarrow> nat \<Rightarrow> number" where
  "round_binary64 s n d =
     (if n = 0 then Finite s 0 (- 1074)
      else let e = max (floor_log2 n d - 52) (- 1074);
               m = (if 0 \<le> e then round_half_even n (d * 2 ^ nat e)
                    else round_half_even (n * 2 ^ nat (- e)) d);
               e' = (if m = 2 ^ 53 then e + 1 else e);
               m' = (if m = 2 ^ 53 then 2 ^ 52 else m)
           in if 971 < e' then Infinity s else Finite s m' e')"

text \<open>The value of a decimal literal \<open>n / 10\<^sup>k\<close> of the program text, as \<open>41.904\<close>.\<close>

definition decimal_literal :: "nat \<Rightarrow> nat \<Rightarrow> number" where
  "decimal_literal n k = round_binary64 False n (10 ^ k)"

text \<open>The operator \<open>*\<close> on Numbers.\<close>

fun num_mul :: "number \<Rightarrow> number \<Rightarrow> number" where
  "num_mul NaN y = NaN"
| "num_mul x NaN = NaN"
| "num_mul (Infinity s) (Infinity t) = Infinity (s \<noteq> t)"
| "num_mul (Infinity s) (Finite t n f) = (if n = 0 then NaN else Infinity (s \<noteq> t))"
| "num_mul (Finite s m e) (Infinity t) = (if m = 0 then NaN else Infinity (s \<noteq> t))"
| "num_mul (Finite s m e) (Finite t n f) =
     (let x = e + f
      in if 0 \<le> x then round_binary64 (s \<noteq> t) (m * n * 2 ^ nat x) 1
         else round_binary64 (s \<noteq> t) (m * n) (2 ^ nat (- x)))"

definition signed :: "bool \<Rightarrow> nat \<Rightarrow> int" where
  "signed s m = (if s then - int m else int m)"

text \<open>
  The exponent at which two finite numbers are added or compared as integers: the smaller
  of the two, where the exponent of a zero does not count.
\<close>

definition common_exponent :: "nat \<Rightarrow> int \<Rightarrow> nat \<Rightarrow> int \<Rightarrow> int" where
  "common_exponent m e n f = (if m = 0 then f else if n = 0 then e else min e f)"

text \<open>
  The operator \<open>+\<close> on Numbers: the exact sum, rounded. An exact sum of zero is \<open>-0\<close>
  only when both operands are negative.
\<close>

fun num_add :: "number \<Rightarrow> number \<Rightarrow> number" where
  "num_add NaN y = NaN"
| "num_add x NaN = NaN"
| "num_add (Infinity s) (Infinity t) = (if s = t then Infinity s else NaN)"
| "num_add (Infinity s) (Finite t n f) = Infinity s"
| "num_add (Finite s m e) (Infinity t) = Infinity t"
| "num_add (Finite s m e) (Finite t n f) =
     (let x = common_exponent m e n f;
          c = signed s m * 2 ^ nat (e - x) + signed t n * 2 ^ nat (f - x)
      in if c = 0 then Finite (s \<and> t) 0 (- 1074)
         else if 0 \<le> x then round_binary64 (c < 0) (nat \<bar>c\<bar> * 2 ^ nat x) 1
         else round_binary64 (c < 0) (nat \<bar>c\<bar>) (2 ^ nat (- x)))"

text \<open>The operator \<open><\<close> on Numbers: false whenever an operand is \<open>NaN\<close>.\<close>

fun num_lt :: "number \<Rightarrow> number \<Rightarrow> bool" where
  "num_lt NaN y = False"
| "num_lt x NaN = False"
| "num_lt (Infinity s) (Infinity t) = (s \<and> \<not> t)"
| "num_lt (Infinity s) (Finite t n f) = s"
| "num_lt (Finite s m e) (Infinity t) = (\<not> t)"
| "num_lt (Finite s m e) (Finite t n f) =
     (let x = common_exponent m e n f
      in signed s m * 2 ^ nat (e - x) < signed t n * 2 ^ nat (f - x))"


section \<open>Data model\<close>

text \<open>
  Objects and arrays live in a store and are known by their reference; \<open>===\<close>, \<open>!==\<close>
  and \<open>includes\<close> on objects compare references.
\<close>

type_synonym ref = nat

text \<open>
  The raw records of the API, with the fields the converter reads. \<open>raw_flavors\<close> is
  \<open>None\<close> when the record has no \<open>flavors\<close> (the converter reads it with \<open>?.\<close>).
\<close>

record RawVariant =
  variant_id :: string
  variant_name :: string
  variant_logo :: string

record RawMemory =
  formatted :: string

record RawProductFlavor =
  raw_name :: string
  raw_price :: number
  raw_mem :: number
  raw_memory :: RawMemory
  raw_cpus :: number
  raw_gpus :: number
  raw_available :: bool
  raw_microservice :: bool
  raw_machine_learning :: bool

record RawProductInstance =
  variant :: RawVariant
  raw_description :: string
  raw_enabled :: bool
  raw_comingSoon :: bool
  raw_flavors :: "RawProductFlavor list option"

text \<open>
  \<open>ProductInstanceModel\<close> and \<open>ProductFlavorModel\<close> of the source. \<open>flavors\<close> refers to
  an array of flavor objects, \<open>flavor_instance\<close> (the field \<open>instance\<close>) refers back to the
  instance object.
\<close>

record ProductInstanceModel =
  instance_id :: string
  instance_name :: string
  description :: string
  logo :: string
  enabled :: bool
  comingSoon :: bool
  flavors :: "ref option"

record ProductFlavorModel =
  flavor_instance :: ref
  name :: string
  price :: number
  mem :: number
  memFormatted :: string
  cpus :: number
  gpus :: number
  available :: bool
  microservice :: bool
  machineLearning :: bool

record heap =
  instanceAt :: "ref \<Rightarrow> ProductInstanceModel"
  flavorAt :: "ref \<Rightarrow> ProductFlavorModel"
  arrayAt :: "ref \<Rightarrow> ref list"
  next_ref :: ref

definition new_instance :: "heap \<Rightarrow> ProductInstanceModel \<Rightarrow> heap \<times> ref" where
  "new_instance h v =
     (h\<lparr>instanceAt := (instanceAt h)(next_ref h := v), next_ref := Suc (next_ref h)\<rparr>, next_ref h)"

definition new_flavor :: "heap \<Rightarrow> ProductFlavorModel \<Rightarrow> heap \<times> ref" where
  "new_flavor h v =
     (h\<lparr>flavorAt := (flavorAt h)(next_ref h := v), next_ref := Suc (next_ref h)\<rparr>, next_ref h)"

definition new_array :: "heap \<Rightarrow> ref list \<Rightarrow> heap \<times> ref" where
  "new_array h v =
     (h\<lparr>arrayAt := (arrayAt h)(next_ref h := v), next_ref := Suc (next_ref h)\<rparr>, next_ref h)"

section \<open>Array.prototype.sort and the comparators\<close>

text \<open>
  \<open>xs.sort(cmp)\<close>: a stable sort, the order every engine yields for a consistent
  comparator. \<open>cmp x y \<le> 0\<close> leaves \<open>x\<close> before \<open>y\<close>.
\<close>

fun insert_sorted :: "('a \<Rightarrow> 'a \<Rightarrow> int) \<Rightarrow> 'a \<Rightarrow> 'a list \<Rightarrow> 'a list" where
  "insert_sorted cmp x [] = [x]"
| "insert_sorted cmp x (y # ys) =
     (if cmp x y \<le> 0 then x # y # ys else y # insert_sorted cmp x ys)"

definition array_sort :: "('a \<Rightarrow> 'a \<Rightarrow> int) \<Rightarrow> 'a list \<Rightarrow> 'a list" where
  "array_sort cmp xs = foldr (insert_sorted cmp) xs []"

text \<open>
  Modelled from the spec: \<open>productInstanceComparator\<close> of the module
  \<open>productInstance/productInstanceComparators\<close>, which the simulator imports. The spec
  (4.2, \<open>compareInstances\<close>): a total order by display name, case-sensitive lexicographic,
  ties broken by identifier.
\<close>

definition productInstanceComparator :: "heap \<Rightarrow> ref \<Rightarrow> ref \<Rightarrow> int" where
  "productInstanceComparator h a b =
     (let x = instanceAt h a; y = instanceAt h b
      in if instance_name x < instance_name y then - 1
         else if instance_name y < instance_name x then 1
         else if instance_id x < instance_id y then - 1
         else if instance_id y < instance_id x then 1
         else 0)"

text \<open>
  Modelled from the spec: \<open>productFlavorComparator\<close> of the same module. The spec (4.2,
  \<open>compareFlavors\<close>): a total order primarily by price ascending, ties broken by name
  lexicographic, then by owning-instance identifier.
\<close>

definition productFlavorComparator :: "heap \<Rightarrow> ref \<Rightarrow> ref \<Rightarrow> int" where
  "productFlavorComparator h a b =
     (let x = flavorAt h a; y = flavorAt h b;
          i = instance_id (instanceAt h (flavor_instance x));
          j = instance_id (instanceAt h (flavor_instance y))
      in if num_lt (price x) (price y) then - 1
         else if num_lt (price y) (price x) then 1
         else if name x < name y then - 1
         else if name y < name x then 1
         else if i < j then - 1
         else if j < i then 1
         else 0)"

section \<open>The service: ProductInstancesService\<close>

text \<open>
  What a call can throw: an \<open>Error\<close> with its message, the \<open>SyntaxError\<close> of
  \<open>response.json()\<close>, and the \<open>error\<close> event of an image, which \<open>_preloadImage\<close> passes
  to \<open>reject\<close>; the event's target is the image, known here by its \<open>src\<close>.
\<close>

datatype error = Error string | SyntaxError | ImageErrorEvent string

text \<open>
  The body of a response, by what \<open>response.json()\<close> makes of it. The Fetch standard reads
  a null body as the empty byte sequence and hands the bytes to the JSON parser, which
  rejects the empty text with a \<open>SyntaxError\<close>, as it does every text that is not JSON.
  The JSON texts \<open>null\<close>, \<open>false\<close>, \<open>0\<close> and \<open>""\<close> parse to a falsy value. The other
  bodies of the model are the arrays of raw records.
\<close>

datatype body = NoBody | NotJson | FalsyJson | JsonArray "RawProductInstance list"

record response =
  ok :: bool
  status :: nat
  body :: body

fun json :: "body \<Rightarrow> error + RawProductInstance list option" where
  "json NoBody = Inl SyntaxError"
| "json NotJson = Inl SyntaxError"
| "json FalsyJson = Inr None"
| "json (JsonArray raws) = Inr (Some raws)"

text \<open>
  What \<open>fetch(url)\<close> settles to: a response, a rejection with an error of the given
  message, or nothing at all (the call has no timeout).
\<close>

datatype fetch_outcome = Responds response | Throws string | Hangs

text \<open>The decimal digits of a number, as a template literal prints \<open>response.status\<close>.\<close>

definition digit :: "nat \<Rightarrow> char" where
  "digit d = ''0123456789'' ! d"

fun to_string :: "nat \<Rightarrow> string" where
  "to_string n = (if n < 10 then [digit n] else to_string (n div 10) @ [digit (n mod 10)])"

declare to_string.simps [simp del]

text \<open>The result of an \<open>async\<close> call: \<open>None\<close> when its promise never settles.\<close>

definition fetchProductInstances ::
  "fetch_outcome \<Rightarrow> (error + RawProductInstance list) option" where
  "fetchProductInstances net =
     (case net of
        Hangs \<Rightarrow> None
      | Throws m \<Rightarrow>
          Some (Inl (Error (''We could not fetch product instances. '' @ m
                            @ '' Please retry later.'')))
      | Responds r \<Rightarrow>
          if \<not> ok r
          then Some (Inl (Error (''We could not fetch product instances. Server responded with error ''
                                 @ to_string (status r) @ ''. Please retry later.'')))
          else (case json (body r) of
                  Inl e \<Rightarrow> Some (Inl e)
                | Inr None \<Rightarrow> Some (Inr [])
                | Inr (Some raws) \<Rightarrow> Some (Inr raws)))"

text \<open>The object that the callback of \<open>flavors?.map\<close> builds for one raw flavor.\<close>

definition convertFlavor :: "ref \<Rightarrow> RawProductFlavor \<Rightarrow> ProductFlavorModel" where
  "convertFlavor productInstance rawProductFlavor =
     \<lparr>flavor_instance = productInstance,
      name = raw_name rawProductFlavor,
      price = num_mul (raw_price rawProductFlavor) (decimal_literal 41904 3),
      mem = raw_mem rawProductFlavor,
      memFormatted = formatted (raw_memory rawProductFlavor),
      cpus = raw_cpus rawProductFlavor,
      gpus = raw_gpus rawProductFlavor,
      available = raw_available rawProductFlavor,
      microservice = raw_microservice rawProductFlavor,
      machineLearning = raw_machine_learning rawProductFlavor\<rparr>"

fun convertFlavors :: "heap \<Rightarrow> ref \<Rightarrow> RawProductFlavor list \<Rightarrow> heap \<times> ref list" where
  "convertFlavors h productInstance [] = (h, [])"
| "convertFlavors h productInstance (rf # rfs) =
     (let (h1, f) = new_flavor h (convertFlavor productInstance rf);
          (h2, fs) = convertFlavors h1 productInstance rfs
      in (h2, f # fs))"

definition productInstanceConverter :: "heap \<Rightarrow> RawProductInstance \<Rightarrow> heap \<times> ref" where
  "productInstanceConverter h rawProductInstance =
     (let (h1, empty) = new_array h [];
          (h2, productInstance) = new_instance h1
             \<lparr>instance_id = variant_id (variant rawProductInstance),
              instance_name = variant_name (variant rawProductInstance),
              description = raw_description rawProductInstance,
              logo = variant_logo (variant rawProductInstance),
              enabled = raw_enabled rawProductInstance,
              comingSoon = raw_comingSoon rawProductInstance,
              flavors = Some empty\<rparr>
      in case raw_flavors rawProductInstance of
           None \<Rightarrow>
             (h2\<lparr>instanceAt := (instanceAt h2)
                    (productInstance := (instanceAt h2 productInstance)\<lparr>flavors := None\<rparr>)\<rparr>,
              productInstance)
         | Some rfs \<Rightarrow>
             (let (h3, fs) = convertFlavors h2 productInstance rfs;
                  (h4, a) = new_array h3 fs
              in (h4\<lparr>instanceAt := (instanceAt h4)
                        (productInstance := (instanceAt h4 productInstance)\<lparr>flavors := Some a\<rparr>)\<rparr>,
                  productInstance)))"

fun convertAll :: "heap \<Rightarrow> RawProductInstance list \<Rightarrow> heap \<times> ref list" where
  "convertAll h [] = (h, [])"
| "convertAll h (raw # raws) =
     (let (h1, p) = productInstanceConverter h raw;
          (h2, ps) = convertAll h1 raws
      in (h2, p # ps))"

text \<open>
  Promises, with the time at which they settle. The browser answers the \<open>i\<close>-th image
  request, for the address \<open>u\<close>, with \<open>browser i u\<close>: a \<open>load\<close> event, an \<open>error\<close> event,
  or no event ever.
\<close>

datatype 'a promise = Fulfilled nat 'a | Rejected nat error | Pending

datatype image_outcome = Loads nat | Fails nat | Stalls

definition preloadImage :: "image_outcome \<Rightarrow> string \<Rightarrow> unit promise" where
  "preloadImage outcome imageUrl =
     (case outcome of
        Loads t \<Rightarrow> Fulfilled t ()
      | Fails t \<Rightarrow> Rejected t (ImageErrorEvent imageUrl)
      | Stalls \<Rightarrow> Pending)"

text \<open>
  \<open>Promise.all\<close>: rejected with the reason of the first promise to reject, as soon as it
  does; fulfilled with all the values once all are fulfilled; pending for ever otherwise.
\<close>

fun first_rejection :: "'a promise list \<Rightarrow> (nat \<times> error) option" where
  "first_rejection [] = None"
| "first_rejection (Rejected t e # ps) =
     (case first_rejection ps of
        None \<Rightarrow> Some (t, e)
      | Some (t', e') \<Rightarrow> if t' < t then Some (t', e') else Some (t, e))"
| "first_rejection (p # ps) = first_rejection ps"

fun all_fulfilled :: "'a promise list \<Rightarrow> (nat \<times> 'a list) option" where
  "all_fulfilled [] = Some (0, [])"
| "all_fulfilled (Fulfilled t v # ps) =
     (case all_fulfilled ps of None \<Rightarrow> None | Some (t', vs) \<Rightarrow> Some (max t t', v # vs))"
| "all_fulfilled (p # ps) = None"

definition Promise_all :: "'a promise list \<Rightarrow> 'a list promise" where
  "Promise_all ps =
     (case first_rejection ps of
        Some (t, e) \<Rightarrow> Rejected t e
      | None \<Rightarrow> (case all_fulfilled ps of Some (t, vs) \<Rightarrow> Fulfilled t vs | None \<Rightarrow> Pending))"

fun await :: "'a promise \<Rightarrow> (error + 'a) option" where
  "await (Fulfilled t v) = Some (Inr v)"
| "await (Rejected t e) = Some (Inl e)"
| "await Pending = None"

text \<open>
  \<open>getProductInstances(preloadProductLogos)\<close>; a call without the argument is the call
  with \<open>False\<close>. It returns the store with the new objects in it and the outcome: the
  error thrown or the array \<open>result\<close>.
\<close>

definition getProductInstances ::
  "fetch_outcome \<Rightarrow> (nat \<Rightarrow> string \<Rightarrow> image_outcome) \<Rightarrow> heap \<Rightarrow> bool
     \<Rightarrow> heap \<times> (error + ref) option" where
  "getProductInstances net browser h preloadProductLogos =
     (case fetchProductInstances net of
        None \<Rightarrow> (h, None)
      | Some (Inl e) \<Rightarrow> (h, Some (Inl e))
      | Some (Inr raws) \<Rightarrow>
          (let (h1, ps) = convertAll h raws;
               (h2, result) = new_array h1 ps
           in if preloadProductLogos
              then (case await (Promise_all
                       (map (\<lambda>(i, r). preloadImage (browser i (logo (instanceAt h2 r)))
                                                     (logo (instanceAt h2 r)))
                            (enumerate 0 (arrayAt h2 result)))) of
                      None \<Rightarrow> (h2, None)
                    | Some (Inl e) \<Rightarrow> (h2, Some (Inl e))
                    | Some (Inr loaded) \<Rightarrow> (h2, Some (Inr result)))
              else (h2, Some (Inr result))))"

section \<open>The component: InvoicingSimulator\<close>

record simulator_state =
  selectedProductInstance :: "ref option"
  selectedFlavors :: "ref list"

record simulator_props =
  productInstances :: ref

definition initial_state :: simulator_state where
  "initial_state = \<lparr>selectedProductInstance = None, selectedFlavors = []\<rparr>"

definition setSelectedProductInstance :: "simulator_state \<Rightarrow> ref \<Rightarrow> simulator_state" where
  "setSelectedProductInstance st productInstance =
     st\<lparr>selectedProductInstance := Some productInstance\<rparr>"

text \<open>
  The argument is always an array made for the call (a spread copy, the result of
  \<open>filter\<close>), so sorting it in place touches no other array.
\<close>

definition setSelectedFlavors :: "heap \<Rightarrow> simulator_state \<Rightarrow> ref list \<Rightarrow> simulator_state" where
  "setSelectedFlavors h st fs = st\<lparr>selectedFlavors := array_sort (productFlavorComparator h) fs\<rparr>"

definition onSelectProductInstance :: "simulator_state \<Rightarrow> ref \<Rightarrow> simulator_state" where
  "onSelectProductInstance st productInstance =
     st\<lparr>selectedProductInstance := Some productInstance\<rparr>"

text \<open>
  \<open>this.props.productInstances.sort(...)\<close> sorts the array of the props itself; the
  sorted array, the same object, is the \<open>items\<close> of the list.
\<close>

definition renderProductInstances :: "heap \<Rightarrow> simulator_props \<Rightarrow> heap \<times> ref" where
  "renderProductInstances h props =
     (let a = productInstances props
      in (h\<lparr>arrayAt := (arrayAt h)(a := array_sort (productInstanceComparator h) (arrayAt h a))\<rparr>,
          a))"

definition onSelectProductFlavor :: "heap \<Rightarrow> simulator_state \<Rightarrow> ref \<Rightarrow> simulator_state" where
  "onSelectProductFlavor h st productFlavor =
     setSelectedFlavors h st (selectedFlavors st @ [productFlavor])"

definition renderProductFlavors :: "heap \<Rightarrow> simulator_state \<Rightarrow> ref list" where
  "renderProductFlavors h st =
     array_sort (productFlavorComparator h)
       (filter (\<lambda>f. f \<notin> set (selectedFlavors st))
          (case selectedProductInstance st of
             None \<Rightarrow> []
           | Some p \<Rightarrow> (case flavors (instanceAt h p) of None \<Rightarrow> [] | Some a \<Rightarrow> arrayAt h a)))"

definition onUnselectProductFlavor :: "heap \<Rightarrow> simulator_state \<Rightarrow> ref \<Rightarrow> simulator_state" where
  "onUnselectProductFlavor h st productFlavor =
     setSelectedFlavors h st (filter (\<lambda>f. f \<noteq> productFlavor) (selectedFlavors st))"

definition renderSelectedFlavors :: "simulator_state \<Rightarrow> ref list" where
  "renderSelectedFlavors st = selectedFlavors st"

text \<open>\<open>renderHeader\<close>, by the \<open>totalPrice\<close> it shows.\<close>

definition renderHeader :: "heap \<Rightarrow> simulator_state \<Rightarrow> number" where
  "renderHeader h st =
     foldl num_add (decimal_literal 0 0) (map (\<lambda>f. price (flavorAt h f)) (selectedFlavors st))"

text \<open>
  The states of a session: the initial state and those that the three handlers reach
  from it.
\<close>

inductive reachable :: "heap \<Rightarrow> simulator_state \<Rightarrow> bool" for h :: heap where
  initial: "reachable h initial_state"
| selectInstance: "reachable h st \<Longrightarrow> reachable h (onSelectProductInstance st p)"
| addFlavor: "reachable h st \<Longrightarrow> reachable h (onSelectProductFlavor h st f)"
| removeFlavor: "reachable h st \<Longrightarrow> reachable h (onUnselectProductFlavor h st f)"

section \<open>Notions for the proofs\<close>

text \<open>
  The real value of a finite Number, and the rank that puts the infinities below and above
  the finite ones: together they order the Numbers other than \<open>NaN\<close> as \<open>num_lt\<close> does.
\<close>

definition num_val :: "number \<Rightarrow> real" where
  "num_val x = (case x of Finite s m e \<Rightarrow> of_int (signed s m) * 2 powi e | _ \<Rightarrow> 0)"

definition num_rank :: "number \<Rightarrow> int" where
  "num_rank x = (case x of Infinity s \<Rightarrow> (if s then - 1 else 1) | _ \<Rightarrow> 0)"

text \<open>
  A comparator is consistent on a set when \<open>cmp x y \<le> 0\<close> is total and transitive there:
  what ECMAScript asks of the argument of \<open>sort\<close> for the result to be the sorted array.
\<close>

definition consistent_on :: "('a \<Rightarrow> 'a \<Rightarrow> int) \<Rightarrow> 'a set \<Rightarrow> bool" where
  "consistent_on cmp A \<longleftrightarrow>
     (\<forall>x\<in>A. \<forall>y\<in>A. cmp x y \<le> 0 \<or> cmp y x \<le> 0) \<and>
     (\<forall>x\<in>A. \<forall>y\<in>A. \<forall>z\<in>A. cmp x y \<le> 0 \<longrightarrow> cmp y z \<le> 0 \<longrightarrow> cmp x z \<le> 0)"

definition ordered_by :: "('a \<Rightarrow> 'a \<Rightarrow> int) \<Rightarrow> 'a list \<Rightarrow> bool" where
  "ordered_by cmp xs = sorted_wrt (\<lambda>x y. cmp x y \<le> 0) xs"

definition flavor_key :: "heap \<Rightarrow> ref \<Rightarrow> int \<times> real \<times> string \<times> string" where
  "flavor_key h f =
     (num_rank (price (flavorAt h f)), num_val (price (flavorAt h f)), name (flavorAt h f),
      instance_id (instanceAt h (flavor_instance (flavorAt h f))))"

definition instance_key :: "heap \<Rightarrow> ref \<Rightarrow> string \<times> string" where
  "instance_key h p = (instance_name (instanceAt h p), instance_id (instanceAt h p))"

text \<open>
  The identity of a flavor in the sense of the data model: the identifier of the owning
  instance and the name of the flavor.
\<close>

definition same_identity :: "heap \<Rightarrow> ref \<Rightarrow> ref \<Rightarrow> bool" where
  "same_identity h f g \<longleftrightarrow>
     instance_id (instanceAt h (flavor_instance (flavorAt h f)))
       = instance_id (instanceAt h (flavor_instance (flavorAt h g))) \<and>
     name (flavorAt h f) = name (flavorAt h g)"

section \<open>A store for the examples\<close>

text \<open>
  Two instances (0: Node, 1: Java), the flavor M of Node at 419.04 (2) and the flavor S of
  Node at 100.0, which every other reference holds: 3 and 4 are two objects with the same
  fields. The array 5 holds the flavors of Node, every other array is the catalog in the
  order Node, Java.
\<close>

definition example_heap :: heap where
  "example_heap =
     \<lparr>instanceAt = (\<lambda>r.
        if r = 0
        then \<lparr>instance_id = ''node'', instance_name = ''Node'', description = ''Node.js'',
              logo = ''node.svg'', enabled = True, comingSoon = False, flavors = Some 5\<rparr>
        else \<lparr>instance_id = ''java'', instance_name = ''Java'', description = ''Java'',
              logo = ''java.svg'', enabled = True, comingSoon = False, flavors = None\<rparr>),
      flavorAt = (\<lambda>r.
        if r = 2
        then \<lparr>flavor_instance = 0, name = ''M'', price = decimal_literal 41904 2,
              mem = decimal_literal 2048 0, memFormatted = ''2 GiB'', cpus = decimal_literal 2 0,
              gpus = decimal_literal 0 0, available = True, microservice = False,
              machineLearning = False\<rparr>
        else \<lparr>flavor_instance = 0, name = ''S'', price = decimal_literal 1000 1,
              mem = decimal_literal 1024 0, memFormatted = ''1 GiB'', cpus = decimal_literal 1 0,
              gpus = decimal_literal 0 0, available = True, microservice = True,
              machineLearning = False\<rparr>),
      arrayAt = (\<lambda>r. if r = 5 then [2, 3] else [0, 1]),
      next_ref = 7\<rparr>"

definition example_state :: "ref list \<Rightarrow> simulator_state" where
  "example_state fs = \<lparr>selectedProductInstance = Some 0, selectedFlavors = fs\<rparr>"

text \<open>
  Raw records for the examples: a flavor of raw price 10, an instance with this one flavor,
  and a response with three such instances, of which the browser fails to load the logo of
  the second.
\<close>

definition example_raw_flavor :: RawProductFlavor where
  "example_raw_flavor =
     \<lparr>raw_name = ''nano'', raw_price = decimal_literal 10 0, raw_mem = decimal_literal 512 0,
      raw_memory = \<lparr>formatted = ''512 MiB''\<rparr>, raw_cpus = decimal_literal 1 0,
      raw_gpus = decimal_literal 0 0, raw_available = True, raw_microservice = True,
      raw_machine_learning = False\<rparr>"

definition example_raw_instance :: RawProductInstance where
  "example_raw_instance =
     \<lparr>variant = \<lparr>variant_id = ''php'', variant_name = ''PHP'', variant_logo = ''php.svg''\<rparr>,
      raw_description = ''PHP'', raw_enabled = True, raw_comingSoon = False,
      raw_flavors = Some [example_raw_flavor]\<rparr>"

definition example_raw :: "string \<Rightarrow> RawProductInstance" where
  "example_raw u =
     \<lparr>variant = \<lparr>variant_id = u, variant_name = u, variant_logo = u @ ''.svg''\<rparr>,
      raw_description = u, raw_enabled = True, raw_comingSoon = False,
      raw_flavors = Some [example_raw_flavor]\<rparr>"

definition example_response :: response where
  "example_response =
     \<lparr>ok = True, status = 200,
      body = JsonArray [example_raw ''php'', example_raw ''go'', example_raw ''rust'']\<rparr>"

definition example_browser :: "nat \<Rightarrow> string \<Rightarrow> image_outcome" where
  "example_browser i u = (if u = ''go.svg'' then Fails 5 else Loads (3 + i))"

section \<open>Evaluating Numbers\<close>

lemmas binary64_eval = decimal_literal_def round_binary64_def floor_log2_def round_half_even_def
  bit_length.simps Let_def signed_def common_exponent_def

lemma literal_0: "decimal_literal 0 0 = Finite False 0 (- 1074)"
  by (simp add: decimal_literal_def round_binary64_def)

lemma literal_41_904: "decimal_literal 41904 3 = Finite False 5897463712041665 (- 47)"
  by (simp add: binary64_eval)

lemma literal_10: "decimal_literal 10 0 = Finite False 5629499534213120 (- 49)"
  by (simp add: binary64_eval)

lemma literal_419_04: "decimal_literal 41904 2 = Finite False 7371829640052081 (- 44)"
  by (simp add: binary64_eval)

lemma literal_100_0: "decimal_literal 1000 1 = Finite False 7036874417766400 (- 46)"
  by (simp add: binary64_eval)

lemma literal_519_04: "decimal_literal 51904 2 = Finite False 4565524122246840 (- 43)"
  by (simp add: binary64_eval)

lemma mul_10_41_904:
  "num_mul (Finite False 5629499534213120 (- 49)) (Finite False 5897463712041665 (- 47))
     = Finite False 7371829640052081 (- 44)"
  by (simp add: binary64_eval)

lemma add_0_419_04:
  "num_add (Finite False 0 (- 1074)) (Finite False 7371829640052081 (- 44))
     = Finite False 7371829640052081 (- 44)"
  by (simp add: binary64_eval)

lemma add_419_04_100:
  "num_add (Finite False 7371829640052081 (- 44)) (Finite False 7036874417766400 (- 46))
     = Finite False 4565524122246840 (- 43)"
  by (simp add: binary64_eval)

text \<open>
  Two sums as every JavaScript engine gives them: \<open>0.1 + 0.2\<close> is \<open>0.30000000000000004\<close>
  and not \<open>0.3\<close>, and \<open>9007199254740992 + 1\<close> is \<open>9007199254740992\<close>. The product of a
  Number other than \<open>NaN\<close> by \<open>41.904\<close> is never \<open>NaN\<close>.
\<close>

lemma literal_0_1: "decimal_literal 1 1 = Finite False 7205759403792794 (- 56)"
  by (simp add: binary64_eval)

lemma literal_0_2: "decimal_literal 2 1 = Finite False 7205759403792794 (- 55)"
  by (simp add: binary64_eval)

lemma literal_0_3: "decimal_literal 3 1 = Finite False 5404319552844595 (- 54)"
  by (simp add: binary64_eval)

lemma add_0_1_0_2:
  "num_add (decimal_literal 1 1) (decimal_literal 2 1) = decimal_literal 30000000000000004 17 \<and>
   num_add (decimal_literal 1 1) (decimal_literal 2 1) \<noteq> decimal_literal 3 1"
  by (simp add: binary64_eval)

lemma add_2_53_1:
  "num_add (decimal_literal 9007199254740992 0) (decimal_literal 1 0)
     = decimal_literal 9007199254740992 0"
  by (simp add: binary64_eval)

lemma num_mul_not_NaN:
  "x \<noteq> NaN \<Longrightarrow> num_mul x (decimal_literal 41904 3) \<noteq> NaN"
  by (cases x) (simp_all add: literal_41_904 round_binary64_def Let_def)

section \<open>The order of Numbers\<close>

lemma scaled_val:
  assumes "m = 0 \<or> x \<le> e"
  shows "real_of_int (signed s m * 2 ^ nat (e - x)) * 2 powi x = of_int (signed s m) * 2 powi e"
proof (cases "m = 0")
  case True
  then show ?thesis by (simp add: signed_def)
next
  case False
  with assms have le: "x \<le> e" by simp
  have "(2::real) powi (e - x) * 2 powi x = 2 powi (e - x + x)"
    by (rule power_int_add [symmetric]) simp
  moreover have "(2::real) powi (e - x) = 2 ^ nat (e - x)"
    using le by (simp add: power_int_nonneg_exp)
  ultimately have "(2::real) powi e = 2 ^ nat (e - x) * 2 powi x"
    by simp
  then show ?thesis by simp
qed

lemma num_lt_Finite_iff:
  "num_lt (Finite s m e) (Finite t n f) \<longleftrightarrow> num_val (Finite s m e) < num_val (Finite t n f)"
proof -
  define x where "x = common_exponent m e n f"
  have a: "m = 0 \<or> x \<le> e" and b: "n = 0 \<or> x \<le> f"
    by (auto simp: x_def common_exponent_def)
  have "num_lt (Finite s m e) (Finite t n f)
      \<longleftrightarrow> signed s m * 2 ^ nat (e - x) < signed t n * 2 ^ nat (f - x)"
    by (simp add: x_def Let_def)
  also have "\<dots> \<longleftrightarrow> real_of_int (signed s m * 2 ^ nat (e - x)) < real_of_int (signed t n * 2 ^ nat (f - x))"
    by (simp only: of_int_less_iff)
  also have "\<dots> \<longleftrightarrow> real_of_int (signed s m * 2 ^ nat (e - x)) * 2 powi x
                    < real_of_int (signed t n * 2 ^ nat (f - x)) * 2 powi x"
    by (simp add: mult_less_cancel_right_pos)
  also have "\<dots> \<longleftrightarrow> num_val (Finite s m e) < num_val (Finite t n f)"
    by (simp only: scaled_val [OF a] scaled_val [OF b] num_val_def number.case)
  finally show ?thesis .
qed

lemma num_lt_iff:
  "a \<noteq> NaN \<Longrightarrow> b \<noteq> NaN \<Longrightarrow>
   num_lt a b \<longleftrightarrow> num_rank a < num_rank b \<or> (num_rank a = num_rank b \<and> num_val a < num_val b)"
proof (cases a; cases b)
  fix s m e t n f
  assume "a = Finite s m e" "b = Finite t n f"
  then show ?thesis
    by (simp only: num_lt_Finite_iff) (simp add: num_rank_def)
qed (auto simp: num_rank_def num_val_def)


section \<open>The arithmetic of Numbers rounds correctly\<close>

text \<open>
  \<open>round_binary64\<close> yields, when it yields a finite Number, one that exists in binary64
  (53 bits, the exponent in range, the least exponent for the subnormal ones) and that is
  within half a unit in its last place of the exact value. So are the product of two finite
  Numbers and their sum, which are the exact product and the exact sum, rounded.
\<close>

lemma bit_length_bounds:
  "0 < n \<Longrightarrow> 2 ^ (bit_length n - 1) \<le> n \<and> n < 2 ^ bit_length n"
proof (induction n rule: bit_length.induct)
  case (1 n)
  show ?case
  proof (cases "n div 2 = 0")
    case True
    with "1.prems" have "n = 1" by (simp add: div_eq_0_iff)
    then show ?thesis by (simp add: bit_length.simps)
  next
    case False
    then have "0 < n div 2" by simp
    with "1.IH" "1.prems"
    have lo: "2 ^ (bit_length (n div 2) - 1) \<le> n div 2" and hi: "n div 2 < 2 ^ bit_length (n div 2)"
      by simp_all
    have b: "bit_length n = Suc (bit_length (n div 2))"
      using "1.prems" by (simp add: bit_length.simps [of n])
    have pos: "0 < bit_length (n div 2)"
      using False by (simp add: bit_length.simps [of "n div 2"])
    then have "(2::nat) ^ bit_length (n div 2) = 2 * 2 ^ (bit_length (n div 2) - 1)"
      by (cases "bit_length (n div 2)") simp_all
    with lo have "2 ^ bit_length (n div 2) \<le> 2 * (n div 2)" by simp
    also have "\<dots> \<le> n" by simp
    finally have 1: "2 ^ (bit_length n - 1) \<le> n" by (simp add: b)
    from hi have "n div 2 + 1 \<le> 2 ^ bit_length (n div 2)" by simp
    then have "2 * (n div 2) + 2 \<le> 2 * 2 ^ bit_length (n div 2)" by simp
    moreover have "n < 2 * (n div 2) + 2" by presburger
    ultimately have 2: "n < 2 ^ bit_length n" by (simp add: b)
    from 1 2 show ?thesis ..
  qed
qed

lemma round_half_even_nearest:
  assumes "0 < d"
  shows "\<bar>real (round_half_even n d) - real n / real d\<bar> \<le> 1 / 2"
proof -
  define q r where "q = n div d" and "r = n mod d"
  have n: "n = q * d + r" and r: "r < d"
    using assms by (simp_all add: q_def r_def)
  have frac: "real n / real d = real q + real r / real d"
    using assms by (simp add: n field_simps)
  have "round_half_even n d = q \<and> 2 * r \<le> d \<or> round_half_even n d = q + 1 \<and> d \<le> 2 * r"
    by (auto simp: round_half_even_def Let_def q_def r_def)
  then show ?thesis
  proof
    assume "round_half_even n d = q \<and> 2 * r \<le> d"
    then have "round_half_even n d = q" and "2 * real r \<le> real d"
      by (simp_all flip: of_nat_mult add: of_nat_le_iff [symmetric] del: of_nat_mult)
    then show ?thesis using assms by (simp add: frac field_simps)
  next
    assume "round_half_even n d = q + 1 \<and> d \<le> 2 * r"
    then have "round_half_even n d = q + 1" and "real d \<le> 2 * real r"
      by (simp_all flip: of_nat_mult add: of_nat_le_iff [symmetric] del: of_nat_mult)
    moreover have "real r < real d" using r by simp
    ultimately show ?thesis using assms by (simp add: frac field_simps)
  qed
qed

lemma powi_add2: "(2::real) powi i * 2 powi j = 2 powi (i + j)"
  by (rule power_int_add [symmetric]) simp

lemma floor_log2_bounds:
  assumes "0 < n" "0 < d"
  shows "2 powi (floor_log2 n d) * real d \<le> real n \<and> real n < 2 powi (floor_log2 n d + 1) * real d"
proof -
  define a b k where "a = bit_length n" and "b = bit_length d" and "k = int a - int b"
  from bit_length_bounds [OF assms(1)] have n: "2 ^ (a - 1) \<le> n" "n < 2 ^ a"
    by (simp_all add: a_def)
  from bit_length_bounds [OF assms(2)] have d: "2 ^ (b - 1) \<le> d" "d < 2 ^ b"
    by (simp_all add: b_def)
  have apos: "0 < a" using assms(1) by (simp add: a_def bit_length.simps [of n])
  have bpos: "0 < b" using assms(2) by (simp add: b_def bit_length.simps [of d])
  have rn: "(2::real) ^ (a - 1) \<le> real n" "real n < 2 ^ a"
    using n by (metis of_nat_le_iff of_nat_numeral of_nat_power, metis of_nat_less_iff of_nat_numeral of_nat_power)
  have rd: "(2::real) ^ (b - 1) \<le> real d" "real d < 2 ^ b"
    using d by (metis of_nat_le_iff of_nat_numeral of_nat_power, metis of_nat_less_iff of_nat_numeral of_nat_power)
  have ia: "int a - 1 = int (a - 1)" using apos by linarith
  have ib: "int b - 1 = int (b - 1)" using bpos by linarith
  have n1: "2 powi (int a - 1) \<le> real n" using rn(1) by (simp only: ia power_int_of_nat)
  have n2: "real n < 2 powi int a" using rn(2) by (simp only: power_int_of_nat)
  have d1: "2 powi (int b - 1) \<le> real d" using rd(1) by (simp only: ib power_int_of_nat)
  have d2: "real d < 2 powi int b" using rd(2) by (simp only: power_int_of_nat)
  have pos: "\<And>i. (0::real) < 2 powi i" by simp
  have upper: "real n < 2 powi (k + 1) * real d"
  proof -
    have "k + 1 + (int b - 1) = int a" by (simp add: k_def)
    then have "(2::real) powi int a = 2 powi (k + 1) * 2 powi (int b - 1)"
      by (simp only: powi_add2)
    also have "\<dots> \<le> 2 powi (k + 1) * real d"
      by (rule mult_left_mono [OF d1]) simp
    finally show ?thesis using n2 by linarith
  qed
  have lower: "2 powi (k - 1) * real d < real n"
  proof -
    have "2 powi (k - 1) * real d < 2 powi (k - 1) * 2 powi int b"
      by (rule mult_strict_left_mono [OF d2]) simp
    also have "\<dots> = 2 powi (k - 1 + int b)" by (rule powi_add2)
    also have "k - 1 + int b = int a - 1" by (simp add: k_def)
    finally show ?thesis using n1 by linarith
  qed
  define T where "T = (if 0 \<le> k then d * 2 ^ nat k \<le> n else d \<le> n * 2 ^ nat (- k))"
  have T: "T \<longleftrightarrow> 2 powi k * real d \<le> real n"
  proof (cases "0 \<le> k")
    case True
    then have "T \<longleftrightarrow> d * 2 ^ nat k \<le> n" by (simp add: T_def)
    also have "\<dots> \<longleftrightarrow> real (d * 2 ^ nat k) \<le> real n" by (simp only: of_nat_le_iff)
    also have "real (d * 2 ^ nat k) = 2 ^ nat k * real d" by simp
    also have "(2::real) ^ nat k = 2 powi k" using True by (simp add: power_int_nonneg_exp)
    finally show ?thesis .
  next
    case False
    then have nk: "0 \<le> - k" by simp
    from False have "T \<longleftrightarrow> d \<le> n * 2 ^ nat (- k)" by (simp add: T_def)
    also have "\<dots> \<longleftrightarrow> real d \<le> real (n * 2 ^ nat (- k))" by (simp only: of_nat_le_iff)
    also have "real (n * 2 ^ nat (- k)) = real n * 2 ^ nat (- k)" by simp
    also have "(2::real) ^ nat (- k) = 2 powi (- k)" using nk by (simp only: power_int_nonneg_exp)
    also have "real d \<le> real n * 2 powi (- k) \<longleftrightarrow> real d * 2 powi k \<le> real n * 2 powi (- k) * 2 powi k"
      by (simp only: mult_le_cancel_right_pos [OF pos])
    also have "real n * 2 powi (- k) * 2 powi k = real n * (2 powi (- k) * 2 powi k)"
      by (simp only: mult.assoc)
    also have "(2::real) powi (- k) * 2 powi k = 1"
      by (simp only: powi_add2) simp
    finally show ?thesis by (simp add: mult.commute)
  qed
  have fl: "floor_log2 n d = (if T then k else k - 1)"
    by (simp add: floor_log2_def T_def k_def a_def b_def Let_def)
  show ?thesis
  proof (cases T)
    case True
    with T fl upper show ?thesis by simp
  next
    case False
    with T have "real n < 2 powi k * real d" by simp
    with False fl lower show ?thesis by simp
  qed
qed

lemma round_binary64_Finite:
  assumes "0 < n" "0 < d" "round_binary64 s n d = Finite t m e"
  shows "t = s \<and> m < 2 ^ 53 \<and> - 1074 \<le> e \<and> e \<le> 971 \<and> (m < 2 ^ 52 \<longrightarrow> e = - 1074) \<and>
         \<bar>real m * 2 powi e - real n / real d\<bar> \<le> 2 powi e / 2"
proof -
  define fl e0 where "fl = floor_log2 n d" and "e0 = max (fl - 52) (- 1074)"
  define m0 where "m0 = (if 0 \<le> e0 then round_half_even n (d * 2 ^ nat e0)
                         else round_half_even (n * 2 ^ nat (- e0)) d)"
  define x where "x = real n / (real d * 2 powi e0)"
  have dpos: "0 < real d" using assms(2) by simp
  have ppos: "\<And>i. (0::real) < 2 powi i" by simp
  have near: "\<bar>real m0 - x\<bar> \<le> 1 / 2"
  proof (cases "0 \<le> e0")
    case True
    have "real (d * 2 ^ nat e0) = real d * 2 powi e0"
      using True by (simp add: power_int_nonneg_exp)
    moreover have "\<bar>real (round_half_even n (d * 2 ^ nat e0)) - real n / real (d * 2 ^ nat e0)\<bar> \<le> 1 / 2"
      by (rule round_half_even_nearest) (use assms(2) in simp)
    ultimately show ?thesis using True by (simp only: m0_def x_def if_True)
  next
    case False
    then have ne: "0 \<le> - e0" by simp
    have "(2::real) ^ nat (- e0) = 2 powi (- e0)"
      using ne by (simp only: power_int_nonneg_exp)
    then have "real (n * 2 ^ nat (- e0)) / real d = real n * 2 powi (- e0) / real d"
      by simp
    also have "\<dots> = real n / (real d * 2 powi e0)"
      by (simp add: power_int_minus field_simps)
    finally have "real (n * 2 ^ nat (- e0)) / real d = x" by (simp only: x_def)
    moreover have "\<bar>real (round_half_even (n * 2 ^ nat (- e0)) d) - real (n * 2 ^ nat (- e0)) / real d\<bar> \<le> 1 / 2"
      by (rule round_half_even_nearest) (rule assms(2))
    ultimately show ?thesis using False by (simp only: m0_def if_False)
  qed
  from floor_log2_bounds [OF assms(1,2)]
  have lo: "2 powi fl * real d \<le> real n" and hi: "real n < 2 powi (fl + 1) * real d"
    by (simp_all add: fl_def)
  have xd: "x * (real d * 2 powi e0) = real n"
    using dpos ppos [of e0] by (simp add: x_def)
  have x_hi: "x < 2 ^ 53"
  proof -
    have "fl + 1 \<le> 53 + e0" by (simp add: e0_def)
    then have "(2::real) powi (fl + 1) \<le> 2 powi (53 + e0)"
      by (rule power_int_increasing) simp
    also have "\<dots> = 2 powi 53 * 2 powi e0" by (simp only: powi_add2)
    finally have "2 powi (fl + 1) * real d \<le> 2 powi 53 * 2 powi e0 * real d"
      using dpos by (simp only: mult_le_cancel_right_pos)
    with hi have "x * (real d * 2 powi e0) < 2 powi 53 * (real d * 2 powi e0)"
      by (simp only: xd) (simp add: mult.commute mult.left_commute)
    then have "x < 2 powi 53"
      using dpos ppos [of e0] by (simp only: mult_less_cancel_right_pos mult_pos_pos)
    then show ?thesis by simp
  qed
  have x_lo: "2 ^ 52 \<le> x" if "e0 = fl - 52"
  proof -
    have "fl = 52 + e0" using that by simp
    then have "(2::real) powi fl = 2 powi 52 * 2 powi e0" by (simp only: powi_add2)
    with lo have "2 powi 52 * (real d * 2 powi e0) \<le> x * (real d * 2 powi e0)"
      by (simp only: xd) (simp add: mult.commute mult.left_commute)
    then have "2 powi 52 \<le> x"
      using dpos ppos [of e0] by (simp only: mult_le_cancel_right_pos mult_pos_pos)
    then show ?thesis by simp
  qed
  have m_hi: "m0 \<le> 2 ^ 53"
  proof -
    from near x_hi have "real m0 < 2 ^ 53 + 1" by linarith
    then have "real m0 < real (2 ^ 53 + 1)" by simp
    then have "m0 < 2 ^ 53 + 1" by (simp only: of_nat_less_iff)
    then show ?thesis by simp
  qed
  have m_lo: "2 ^ 52 \<le> m0" if "e0 = fl - 52"
  proof -
    from near x_lo [OF that] have "(2::real) ^ 52 - 1 < real m0" by linarith
    then have "real (2 ^ 52 - 1) < real m0" by simp
    then have "2 ^ 52 - 1 < m0" by (simp only: of_nat_less_iff)
    then show ?thesis by simp
  qed
  have err0: "\<bar>real m0 * 2 powi e0 - real n / real d\<bar> \<le> 2 powi e0 / 2"
  proof -
    have "real n / real d = x * 2 powi e0"
      using dpos ppos [of e0] by (simp add: x_def)
    then have "\<bar>real m0 * 2 powi e0 - real n / real d\<bar> = \<bar>real m0 - x\<bar> * 2 powi e0"
      by (simp add: abs_mult left_diff_distrib [symmetric])
    also have "\<dots> \<le> 1 / 2 * 2 powi e0"
      by (rule mult_right_mono [OF near]) simp
    finally show ?thesis by simp
  qed
  have r: "round_binary64 s n d =
        (if 971 < (if m0 = 2 ^ 53 then e0 + 1 else e0) then Infinity s
         else Finite s (if m0 = 2 ^ 53 then 2 ^ 52 else m0) (if m0 = 2 ^ 53 then e0 + 1 else e0))"
  proof -
    from assms(1) have "n \<noteq> 0" by simp
    then show ?thesis
      by (simp only: round_binary64_def Let_def m0_def e0_def fl_def if_False)
  qed
  have e0_lo: "- 1074 \<le> e0" by (simp add: e0_def)
  show ?thesis
  proof (cases "m0 = 2 ^ 53")
    case True
    with r assms(3) have t: "t = s" and m: "m = 2 ^ 52" and e: "e = e0 + 1" and le: "e \<le> 971"
      by (simp_all split: if_splits)
    have "real m * 2 powi e = real m0 * 2 powi e0"
    proof -
      have "(2::real) powi (e0 + 1) = 2 powi e0 * 2 powi 1" by (simp only: powi_add2)
      then show ?thesis by (simp add: m e True)
    qed
    moreover have "(2::real) powi e0 \<le> 2 powi e"
      unfolding e by (rule power_int_increasing) simp_all
    ultimately have "\<bar>real m * 2 powi e - real n / real d\<bar> \<le> 2 powi e / 2"
      using err0 by simp
    with t m e le e0_lo show ?thesis by simp
  next
    case False
    with r assms(3) have t: "t = s" and m: "m = m0" and e: "e = e0" and le: "e \<le> 971"
      by (simp_all split: if_splits)
    from False m_hi have "m0 < 2 ^ 53" by simp
    moreover have "e0 = - 1074" if "m0 < 2 ^ 52"
    proof (rule ccontr)
      assume "e0 \<noteq> - 1074"
      then have "e0 = fl - 52" by (simp add: e0_def max_def split: if_splits)
      from m_lo [OF this] that show False by simp
    qed
    ultimately show ?thesis using t m e le e0_lo err0 by simp
  qed
qed

lemma num_mul_rounded:
  assumes "num_mul (Finite s m e) (Finite t n f) = Finite u k g" and "0 < m" and "0 < n"
  shows "u = (s \<noteq> t) \<and> k < 2 ^ 53 \<and> - 1074 \<le> g \<and> g \<le> 971 \<and> (k < 2 ^ 52 \<longrightarrow> g = - 1074) \<and>
         \<bar>real k * 2 powi g - (real m * 2 powi e) * (real n * 2 powi f)\<bar> \<le> 2 powi g / 2"
proof -
  define x where "x = e + f"
  have px: "(2::real) powi e * 2 powi f = 2 powi x" by (simp only: x_def powi_add2)
  have exact: "(real m * 2 powi e) * (real n * 2 powi f) = real (m * n) * 2 powi x"
    by (simp add: px [symmetric])
  have mn: "0 < m * n" using assms(2,3) by simp
  show ?thesis
  proof (cases "0 \<le> x")
    case True
    with assms(1) have r: "round_binary64 (s \<noteq> t) (m * n * 2 ^ nat x) 1 = Finite u k g"
      by (simp add: x_def Let_def)
    have "0 < m * n * 2 ^ nat x" using mn by simp
    from round_binary64_Finite [OF this _ r]
    have *: "u = (s \<noteq> t) \<and> k < 2 ^ 53 \<and> - 1074 \<le> g \<and> g \<le> 971 \<and> (k < 2 ^ 52 \<longrightarrow> g = - 1074)"
      and **: "\<bar>real k * 2 powi g - real (m * n * 2 ^ nat x) / real 1\<bar> \<le> 2 powi g / 2"
      by simp_all
    have "real (m * n * 2 ^ nat x) / real 1 = real (m * n) * 2 ^ nat x" by simp
    also have "(2::real) ^ nat x = 2 powi x" using True by (simp only: power_int_nonneg_exp)
    finally show ?thesis using * ** by (simp only: exact) simp
  next
    case False
    then have nx: "0 \<le> - x" by simp
    from False assms(1) have r: "round_binary64 (s \<noteq> t) (m * n) (2 ^ nat (- x)) = Finite u k g"
      by (simp add: x_def Let_def)
    have "0 < (2::nat) ^ nat (- x)" by simp
    from round_binary64_Finite [OF mn this r]
    have *: "u = (s \<noteq> t) \<and> k < 2 ^ 53 \<and> - 1074 \<le> g \<and> g \<le> 971 \<and> (k < 2 ^ 52 \<longrightarrow> g = - 1074)"
      and **: "\<bar>real k * 2 powi g - real (m * n) / real (2 ^ nat (- x))\<bar> \<le> 2 powi g / 2"
      by simp_all
    have "real ((2::nat) ^ nat (- x)) = 2 ^ nat (- x)" by simp
    also have "(2::real) ^ nat (- x) = 2 powi (- x)" using nx by (simp only: power_int_nonneg_exp)
    finally have "real (m * n) / real (2 ^ nat (- x)) = real (m * n) * 2 powi x"
      by (simp add: power_int_minus field_simps)
    with * ** show ?thesis by (simp only: exact) simp
  qed
qed

lemma num_add_rounded:
  assumes "num_add (Finite s m e) (Finite t n f) = Finite u k g"
    and "real_of_int (signed s m) * 2 powi e + real_of_int (signed t n) * 2 powi f \<noteq> 0"
  shows "k < 2 ^ 53 \<and> - 1074 \<le> g \<and> g \<le> 971 \<and> (k < 2 ^ 52 \<longrightarrow> g = - 1074) \<and>
         \<bar>real_of_int (signed u k) * 2 powi g
            - (real_of_int (signed s m) * 2 powi e + real_of_int (signed t n) * 2 powi f)\<bar>
           \<le> 2 powi g / 2"
proof -
  define x where "x = common_exponent m e n f"
  define c where "c = signed s m * 2 ^ nat (e - x) + signed t n * 2 ^ nat (f - x)"
  define exact where
    "exact = real_of_int (signed s m) * 2 powi e + real_of_int (signed t n) * 2 powi f"
  have a: "m = 0 \<or> x \<le> e" and b: "n = 0 \<or> x \<le> f"
    by (auto simp: x_def common_exponent_def)
  have "real_of_int c * 2 powi x
          = real_of_int (signed s m * 2 ^ nat (e - x)) * 2 powi x
            + real_of_int (signed t n * 2 ^ nat (f - x)) * 2 powi x"
    by (simp add: c_def distrib_right)
  then have cx: "real_of_int c * 2 powi x = exact"
    by (simp only: scaled_val [OF a] scaled_val [OF b] exact_def)
  with assms(2) have c0: "c \<noteq> 0" by (auto simp: exact_def)
  then have cpos: "0 < nat \<bar>c\<bar>" by simp
  have absc: "real (nat \<bar>c\<bar>) * 2 powi x = \<bar>exact\<bar>"
  proof -
    have "real (nat \<bar>c\<bar>) = \<bar>real_of_int c\<bar>" by simp
    then have "real (nat \<bar>c\<bar>) * 2 powi x = \<bar>real_of_int c * 2 powi x\<bar>"
      by (simp add: abs_mult)
    then show ?thesis by (simp only: cx)
  qed
  have sgn: "exact = (if c < 0 then - \<bar>exact\<bar> else \<bar>exact\<bar>)"
  proof -
    have "(real_of_int c * 2 powi x < 0 * 2 powi x) = (real_of_int c < 0)"
      by (rule mult_less_cancel_right_pos) simp
    then have "(exact < 0) = (c < 0)"
      by (simp add: cx)
    then show ?thesis by auto
  qed
  have main: "u = (c < 0) \<and> k < 2 ^ 53 \<and> - 1074 \<le> g \<and> g \<le> 971 \<and> (k < 2 ^ 52 \<longrightarrow> g = - 1074) \<and>
         \<bar>real k * 2 powi g - \<bar>exact\<bar>\<bar> \<le> 2 powi g / 2"
  proof (cases "0 \<le> x")
    case True
    with assms(1) c0 have r: "round_binary64 (c < 0) (nat \<bar>c\<bar> * 2 ^ nat x) 1 = Finite u k g"
      by (simp add: x_def c_def Let_def)
    have "0 < nat \<bar>c\<bar> * 2 ^ nat x" using cpos by simp
    from round_binary64_Finite [OF this _ r]
    have *: "u = (c < 0) \<and> k < 2 ^ 53 \<and> - 1074 \<le> g \<and> g \<le> 971 \<and> (k < 2 ^ 52 \<longrightarrow> g = - 1074)"
      and **: "\<bar>real k * 2 powi g - real (nat \<bar>c\<bar> * 2 ^ nat x) / real 1\<bar> \<le> 2 powi g / 2"
      by simp_all
    have "real (nat \<bar>c\<bar> * 2 ^ nat x) / real 1 = real (nat \<bar>c\<bar>) * 2 ^ nat x" by simp
    also have "(2::real) ^ nat x = 2 powi x" using True by (simp only: power_int_nonneg_exp)
    finally have "real (nat \<bar>c\<bar> * 2 ^ nat x) / real 1 = \<bar>exact\<bar>" by (simp only: absc)
    with * ** show ?thesis by simp
  next
    case False
    then have nx: "0 \<le> - x" by simp
    from False assms(1) c0 have r: "round_binary64 (c < 0) (nat \<bar>c\<bar>) (2 ^ nat (- x)) = Finite u k g"
      by (simp add: x_def c_def Let_def)
    have "0 < (2::nat) ^ nat (- x)" by simp
    from round_binary64_Finite [OF cpos this r]
    have *: "u = (c < 0) \<and> k < 2 ^ 53 \<and> - 1074 \<le> g \<and> g \<le> 971 \<and> (k < 2 ^ 52 \<longrightarrow> g = - 1074)"
      and **: "\<bar>real k * 2 powi g - real (nat \<bar>c\<bar>) / real (2 ^ nat (- x))\<bar> \<le> 2 powi g / 2"
      by simp_all
    have "real ((2::nat) ^ nat (- x)) = 2 ^ nat (- x)" by simp
    also have "(2::real) ^ nat (- x) = 2 powi (- x)" using nx by (simp only: power_int_nonneg_exp)
    finally have "real (nat \<bar>c\<bar>) / real (2 ^ nat (- x)) = real (nat \<bar>c\<bar>) * 2 powi x"
      by (simp add: power_int_minus field_simps)
    then have "real (nat \<bar>c\<bar>) / real (2 ^ nat (- x)) = \<bar>exact\<bar>" by (simp only: absc)
    with * ** show ?thesis by simp
  qed
  have "\<bar>real_of_int (signed u k) * 2 powi g - exact\<bar> = \<bar>real k * 2 powi g - \<bar>exact\<bar>\<bar>"
  proof (cases "c < 0")
    case True
    with main have "real_of_int (signed u k) = - real k" by (simp add: signed_def)
    moreover from True sgn have "exact = - \<bar>exact\<bar>" by simp
    ultimately have "real_of_int (signed u k) * 2 powi g - exact = - (real k * 2 powi g - \<bar>exact\<bar>)"
      by simp
    then show ?thesis by (simp only: abs_minus_cancel)
  next
    case False
    with main have "real_of_int (signed u k) = real k" by (simp add: signed_def)
    moreover from False sgn have "exact = \<bar>exact\<bar>" by simp
    ultimately show ?thesis by simp
  qed
  with main show ?thesis by (simp add: exact_def)
qed

section \<open>Sorting\<close>

lemma mset_insert_sorted: "mset (insert_sorted cmp x xs) = add_mset x (mset xs)"
  by (induction xs) auto

lemma mset_array_sort: "mset (array_sort cmp xs) = mset xs"
  by (induction xs) (auto simp: array_sort_def mset_insert_sorted)

lemma set_array_sort: "set (array_sort cmp xs) = set xs"
  using mset_array_sort [of cmp xs] by (metis set_mset_mset)

lemma length_array_sort: "length (array_sort cmp xs) = length xs"
  using mset_array_sort [of cmp xs] by (metis size_mset)

lemma set_insert_sorted: "set (insert_sorted cmp x xs) = insert x (set xs)"
  using mset_insert_sorted [of cmp x xs] by (metis set_mset_mset set_mset_add_mset_insert)

lemma consistent_on_key:
  fixes key :: "'a \<Rightarrow> 'k::linorder"
  assumes "\<And>x y. x \<in> A \<Longrightarrow> y \<in> A \<Longrightarrow> cmp x y \<le> 0 \<longleftrightarrow> key x \<le> key y"
  shows "consistent_on cmp A"
  unfolding consistent_on_def
proof (intro conjI ballI impI)
  fix x y assume "x \<in> A" "y \<in> A"
  then show "cmp x y \<le> 0 \<or> cmp y x \<le> 0"
    using assms linear [of "key x" "key y"] by blast
next
  fix x y z assume "x \<in> A" "y \<in> A" "z \<in> A" "cmp x y \<le> 0" "cmp y z \<le> 0"
  then show "cmp x z \<le> 0"
    using assms order_trans [of "key x" "key y" "key z"] by blast
qed

lemma consistent_on_subset: "consistent_on cmp A \<Longrightarrow> B \<subseteq> A \<Longrightarrow> consistent_on cmp B"
  unfolding consistent_on_def by blast

lemma productInstanceComparator_key:
  "productInstanceComparator h a b \<le> 0 \<longleftrightarrow> instance_key h a \<le> instance_key h b"
  by (auto simp: productInstanceComparator_def instance_key_def Let_def)

lemma productFlavorComparator_key:
  assumes "price (flavorAt h a) \<noteq> NaN" "price (flavorAt h b) \<noteq> NaN"
  shows "productFlavorComparator h a b \<le> 0 \<longleftrightarrow> flavor_key h a \<le> flavor_key h b"
  using assms
  by (auto simp: productFlavorComparator_def flavor_key_def Let_def num_lt_iff)

lemma consistent_productInstanceComparator: "consistent_on (productInstanceComparator h) A"
  by (rule consistent_on_key [where key = "instance_key h"]) (rule productInstanceComparator_key)

lemma consistent_productFlavorComparator:
  assumes "\<forall>f\<in>A. price (flavorAt h f) \<noteq> NaN"
  shows "consistent_on (productFlavorComparator h) A"
  by (rule consistent_on_key [where key = "flavor_key h"])
     (use assms in \<open>simp add: productFlavorComparator_key\<close>)

lemma ordered_by_insert_sorted:
  assumes "consistent_on cmp (insert x (set xs))" "ordered_by cmp xs"
  shows "ordered_by cmp (insert_sorted cmp x xs)"
  using assms
proof (induction xs)
  case Nil
  then show ?case by (simp add: ordered_by_def)
next
  case (Cons y ys)
  have c: "consistent_on cmp (insert x (set ys))"
    by (rule consistent_on_subset [OF Cons.prems(1)]) auto
  have s: "ordered_by cmp ys" and hd: "\<forall>z\<in>set ys. cmp y z \<le> 0"
    using Cons.prems(2) by (auto simp: ordered_by_def)
  show ?case
  proof (cases "cmp x y \<le> 0")
    case True
    have "\<forall>z\<in>set ys. cmp x z \<le> 0"
      using True hd Cons.prems(1) unfolding consistent_on_def by (meson insertI1 insertI2 list.set_intros)
    with True Cons.prems(2) show ?thesis by (simp add: ordered_by_def)
  next
    case False
    have "cmp y x \<le> 0"
      using False Cons.prems(1) unfolding consistent_on_def by (meson insertI1 insertI2 list.set_intros)
    with False hd Cons.IH [OF c s] show ?thesis
      by (auto simp: ordered_by_def set_insert_sorted)
  qed
qed

lemma ordered_by_array_sort:
  "consistent_on cmp (set xs) \<Longrightarrow> ordered_by cmp (array_sort cmp xs)"
proof (induction xs)
  case Nil
  then show ?case by (simp add: array_sort_def ordered_by_def)
next
  case (Cons x xs)
  have "consistent_on cmp (set xs)"
    by (rule consistent_on_subset [OF Cons.prems]) auto
  then have "ordered_by cmp (array_sort cmp xs)" by (rule Cons.IH)
  moreover have "consistent_on cmp (insert x (set (array_sort cmp xs)))"
    using Cons.prems by (simp add: set_array_sort)
  ultimately have "ordered_by cmp (insert_sorted cmp x (array_sort cmp xs))"
    by (rule ordered_by_insert_sorted [rotated])
  then show ?case by (simp add: array_sort_def)
qed

lemma array_sort_ordered: "ordered_by cmp xs \<Longrightarrow> array_sort cmp xs = xs"
proof (induction xs)
  case Nil
  then show ?case by (simp add: array_sort_def)
next
  case (Cons x xs)
  then have "array_sort cmp xs = xs" by (simp add: ordered_by_def)
  then have "array_sort cmp (x # xs) = insert_sorted cmp x xs"
    by (simp add: array_sort_def)
  also have "\<dots> = x # xs"
    using Cons.prems by (cases xs) (auto simp: ordered_by_def)
  finally show ?case .
qed


section \<open>The example store\<close>

lemma example_prices:
  "price (flavorAt example_heap 2) = Finite False 7371829640052081 (- 44)"
  "r \<noteq> 2 \<Longrightarrow> price (flavorAt example_heap r) = Finite False 7036874417766400 (- 46)"
  using literal_100_0 by (simp_all add: example_heap_def literal_419_04)

lemma example_names:
  "name (flavorAt example_heap 2) = ''M''"
  "r \<noteq> 2 \<Longrightarrow> name (flavorAt example_heap r) = ''S''"
  "instance_id (instanceAt example_heap (flavor_instance (flavorAt example_heap r))) = ''node''"
  by (simp_all add: example_heap_def)

lemma example_flavor_order:
  "productFlavorComparator example_heap 3 2 = - 1"
  "productFlavorComparator example_heap 2 3 = 1"
  "productFlavorComparator example_heap 2 2 = 0"
  "productFlavorComparator example_heap 3 3 = 0"
  "productFlavorComparator example_heap 3 4 = 0"
  by (simp_all add: productFlavorComparator_def Let_def example_prices example_names
        common_exponent_def signed_def)

lemma example_instance_order:
  "r \<noteq> 0 \<Longrightarrow> productInstanceComparator example_heap 0 r = 1"
  "r \<noteq> 0 \<Longrightarrow> productInstanceComparator example_heap r 0 = - 1"
  by (simp_all add: productInstanceComparator_def Let_def example_heap_def)

section \<open>The conversion\<close>

lemma convertFlavors_spec:
  "convertFlavors h p rfs = (h', fs) \<Longrightarrow>
     length fs = length rfs \<and> next_ref h' = next_ref h + length rfs \<and>
     instanceAt h' = instanceAt h \<and> arrayAt h' = arrayAt h \<and>
     (\<forall>i<length rfs. fs ! i = next_ref h + i) \<and>
     (\<forall>i<length rfs. flavorAt h' (next_ref h + i) = convertFlavor p (rfs ! i)) \<and>
     (\<forall>r<next_ref h. flavorAt h' r = flavorAt h r)"
proof (induction rfs arbitrary: h h' fs)
  case Nil
  then show ?case by simp
next
  case (Cons rf rfs)
  let ?h1 = "fst (new_flavor h (convertFlavor p rf))"
  obtain h2 gs where r: "convertFlavors ?h1 p rfs = (h2, gs)"
    by (cases "convertFlavors ?h1 p rfs")
  have n1: "next_ref ?h1 = Suc (next_ref h)" and i1: "instanceAt ?h1 = instanceAt h"
    and a1: "arrayAt ?h1 = arrayAt h"
    and f1: "flavorAt ?h1 = (flavorAt h)(next_ref h := convertFlavor p rf)"
    by (simp_all add: new_flavor_def)
  from Cons.prems r have h': "h' = h2" and fs: "fs = next_ref h # gs"
    by (simp_all add: new_flavor_def split: prod.splits)
  note IH = Cons.IH [OF r, unfolded n1 i1 a1 f1]
  from IH have len: "length gs = length rfs" and nx: "next_ref h2 = Suc (next_ref h) + length rfs"
    and ia: "instanceAt h2 = instanceAt h" "arrayAt h2 = arrayAt h"
    by simp_all
  from IH have el: "gs ! j = Suc (next_ref h + j)" if "j < length rfs" for j
    using that by simp
  from IH have fl: "flavorAt h2 (Suc (next_ref h + j)) = convertFlavor p (rfs ! j)"
    if "j < length rfs" for j
    using that by simp
  from IH have old: "flavorAt h2 r = ((flavorAt h)(next_ref h := convertFlavor p rf)) r"
    if "r < Suc (next_ref h)" for r
    using that by simp
  have new: "fs ! i = next_ref h + i \<and> flavorAt h' (next_ref h + i) = convertFlavor p ((rf # rfs) ! i)"
    if "i < length (rf # rfs)" for i
  proof (cases i)
    case 0
    then show ?thesis using old [of "next_ref h"] by (simp add: h' fs)
  next
    case (Suc j)
    with that have "j < length rfs" by simp
    then show ?thesis using el [of j] fl [of j] by (simp add: h' fs Suc)
  qed
  have keep: "flavorAt h' r = flavorAt h r" if "r < next_ref h" for r
    using old [of r] that by (simp add: h')
  from len nx ia new keep show ?case
    by (simp add: h' fs)
qed

lemma productInstanceConverter_Some:
  assumes "productInstanceConverter h raw = (h', p)" and "raw_flavors raw = Some rfs"
  shows "\<exists>a fs. flavors (instanceAt h' p) = Some a \<and> arrayAt h' a = fs \<and> length fs = length rfs \<and>
           (\<forall>i<length rfs. flavorAt h' (fs ! i) = convertFlavor p (rfs ! i))"
proof -
  let ?h1 = "fst (new_array h [])"
  let ?v = "\<lparr>instance_id = variant_id (variant raw), instance_name = variant_name (variant raw),
             description = raw_description raw, logo = variant_logo (variant raw),
             enabled = raw_enabled raw, comingSoon = raw_comingSoon raw,
             flavors = Some (next_ref h)\<rparr>"
  let ?h2 = "fst (new_instance ?h1 ?v)"
  obtain h3 fs where c: "convertFlavors ?h2 (Suc (next_ref h)) rfs = (h3, fs)"
    by (cases "convertFlavors ?h2 (Suc (next_ref h)) rfs")
  note s = convertFlavors_spec [OF c]
  from assms c have p: "p = Suc (next_ref h)"
    by (auto simp: productInstanceConverter_def new_array_def new_instance_def Let_def
          split: prod.splits)
  from assms c have fl: "flavors (instanceAt h' p) = Some (next_ref h3)"
    by (auto simp: productInstanceConverter_def new_array_def new_instance_def Let_def
          split: prod.splits)
  from assms c have ar: "arrayAt h' (next_ref h3) = fs"
    by (auto simp: productInstanceConverter_def new_array_def new_instance_def Let_def
          split: prod.splits)
  from assms c have ob: "flavorAt h' = flavorAt h3"
    by (auto simp: productInstanceConverter_def new_array_def new_instance_def Let_def
          split: prod.splits)
  from s have len: "length fs = length rfs" by simp
  have "flavorAt h' (fs ! i) = convertFlavor p (rfs ! i)" if "i < length rfs" for i
  proof -
    from s that have "fs ! i = next_ref ?h2 + i"
      and "flavorAt h3 (next_ref ?h2 + i) = convertFlavor (Suc (next_ref h)) (rfs ! i)"
      by blast+
    then show ?thesis by (simp add: ob p)
  qed
  with fl ar len show ?thesis by blast
qed

text \<open>
  C1. For every raw instance and every raw flavor of it, the converter stores a flavor
  object, at the same position of the \<open>flavors\<close> of the new instance and referring back
  to it, whose price is the raw price times the literal \<open>41.904\<close>, in the multiplication
  of Numbers (the exact product, rounded once to binary64). A raw price of 10 gives the
  Number 419.04.
\<close>

theorem converter_multiplies_prices:
  assumes "productInstanceConverter h raw = (h', p)" and "raw_flavors raw = Some rfs"
  shows "(\<exists>a. flavors (instanceAt h' p) = Some a \<and> length (arrayAt h' a) = length rfs \<and>
           (\<forall>i<length rfs.
              price (flavorAt h' (arrayAt h' a ! i))
                = num_mul (raw_price (rfs ! i)) (decimal_literal 41904 3) \<and>
              name (flavorAt h' (arrayAt h' a ! i)) = raw_name (rfs ! i) \<and>
              flavor_instance (flavorAt h' (arrayAt h' a ! i)) = p)) \<and>
         num_mul (decimal_literal 10 0) (decimal_literal 41904 3) = decimal_literal 41904 2"
proof
  from productInstanceConverter_Some [OF assms]
  obtain a fs where a: "flavors (instanceAt h' p) = Some a" and fs: "arrayAt h' a = fs"
    and len: "length fs = length rfs"
    and obj: "\<And>i. i < length rfs \<Longrightarrow> flavorAt h' (fs ! i) = convertFlavor p (rfs ! i)"
    by blast
  have "price (flavorAt h' (arrayAt h' a ! i))
                = num_mul (raw_price (rfs ! i)) (decimal_literal 41904 3) \<and>
              name (flavorAt h' (arrayAt h' a ! i)) = raw_name (rfs ! i) \<and>
              flavor_instance (flavorAt h' (arrayAt h' a ! i)) = p" if "i < length rfs" for i
    using obj [OF that] by (simp add: fs convertFlavor_def)
  with a fs len
  show "\<exists>a. flavors (instanceAt h' p) = Some a \<and> length (arrayAt h' a) = length rfs \<and>
           (\<forall>i<length rfs.
              price (flavorAt h' (arrayAt h' a ! i))
                = num_mul (raw_price (rfs ! i)) (decimal_literal 41904 3) \<and>
              name (flavorAt h' (arrayAt h' a ! i)) = raw_name (rfs ! i) \<and>
              flavor_instance (flavorAt h' (arrayAt h' a ! i)) = p)"
    by blast
  show "num_mul (decimal_literal 10 0) (decimal_literal 41904 3) = decimal_literal 41904 2"
    by (simp only: literal_10 literal_41_904 literal_419_04 mul_10_41_904)
qed

theorem converter_multiplies_prices_witness:
  "raw_flavors example_raw_instance = Some [example_raw_flavor] \<and>
   raw_price example_raw_flavor = decimal_literal 10 0 \<and>
   (\<exists>a. flavors (instanceAt (fst (productInstanceConverter example_heap example_raw_instance))
                   (snd (productInstanceConverter example_heap example_raw_instance))) = Some a \<and>
        price (flavorAt (fst (productInstanceConverter example_heap example_raw_instance))
                 (arrayAt (fst (productInstanceConverter example_heap example_raw_instance)) a ! 0))
          = decimal_literal 41904 2)"
proof -
  let ?h' = "fst (productInstanceConverter example_heap example_raw_instance)"
  let ?p = "snd (productInstanceConverter example_heap example_raw_instance)"
  have c: "productInstanceConverter example_heap example_raw_instance = (?h', ?p)"
    by simp
  have r: "raw_flavors example_raw_instance = Some [example_raw_flavor]"
    by (simp add: example_raw_instance_def)
  have q: "raw_price example_raw_flavor = decimal_literal 10 0"
    by (simp add: example_raw_flavor_def)
  from converter_multiplies_prices [OF c r]
  obtain a where a: "flavors (instanceAt ?h' ?p) = Some a"
    and m: "price (flavorAt ?h' (arrayAt ?h' a ! 0))
              = num_mul (raw_price ([example_raw_flavor] ! 0)) (decimal_literal 41904 3)"
    and e: "num_mul (decimal_literal 10 0) (decimal_literal 41904 3) = decimal_literal 41904 2"
    by auto
  from m e have "price (flavorAt ?h' (arrayAt ?h' a ! 0)) = decimal_literal 41904 2"
    by (simp add: q)
  with a r q show ?thesis by blast
qed

section \<open>Fetching\<close>

lemma to_string_500: "to_string 500 = ''500''"
  by (simp add: to_string.simps digit_def)

lemma fetch_not_ok:
  "\<not> ok r \<Longrightarrow> fetchProductInstances (Responds r)
           = Some (Inl (Error (''We could not fetch product instances. Server responded with error ''
                               @ to_string (status r) @ ''. Please retry later.'')))"
  by (simp add: fetchProductInstances_def)

lemma length_to_string: "10 \<le> n \<Longrightarrow> 2 \<le> length (to_string n)"
  by (subst to_string.simps) (simp add: to_string.simps [of "n div 10"])

lemma digit_inj: "m < 10 \<Longrightarrow> n < 10 \<Longrightarrow> digit m = digit n \<Longrightarrow> m = n"
  unfolding digit_def by (subst (asm) nth_eq_iff_index_eq) simp_all

lemma to_string_inj: "to_string m = to_string n \<Longrightarrow> m = n"
proof (induction m arbitrary: n rule: to_string.induct)
  case (1 m)
  show ?case
  proof (cases "m < 10")
    case True
    then have "length (to_string m) = 1" by (simp add: to_string.simps)
    with "1.prems" length_to_string [of n] have n: "n < 10" by (cases "n < 10") auto
    with True "1.prems" show ?thesis
      by (simp add: to_string.simps [of m] to_string.simps [of n] digit_inj)
  next
    case False
    then have "2 \<le> length (to_string m)" by (simp add: length_to_string)
    moreover have "length (to_string n) = 1" if "n < 10"
      using that by (simp add: to_string.simps)
    ultimately have n: "\<not> n < 10" using "1.prems" by auto
    from False n "1.prems"
    have "to_string (m div 10) = to_string (n div 10)"
      and "digit (m mod 10) = digit (n mod 10)"
      by (simp_all add: to_string.simps [of m] to_string.simps [of n])
    then have "m div 10 = n div 10" and "m mod 10 = n mod 10"
      using "1.IH" [OF False] by (simp_all add: digit_inj)
    then show ?thesis by (metis div_mult_mod_eq)
  qed
qed

text \<open>
  C5. When the response is not \<open>ok\<close>, \<open>_fetchProductInstances\<close> throws an \<open>Error\<close>, and
  no other kind of error, whose message holds the status code in decimal digits, and
  \<open>getProductInstances\<close> fails with this same error whatever the preloading and without
  creating any object. Two status codes never give the same error, so the error determines
  the status code. For the status 500 the message ends in
  \<open>Server responded with error 500. Please retry later.\<close>
\<close>

theorem non_success_status_is_fetch_failure:
  assumes "\<not> ok r"
  shows "fetchProductInstances (Responds r)
           = Some (Inl (Error (''We could not fetch product instances. Server responded with error ''
                               @ to_string (status r) @ ''. Please retry later.''))) \<and>
         getProductInstances (Responds r) browser h preloadProductLogos
           = (h, Some (Inl (Error (''We could not fetch product instances. Server responded with error ''
                                   @ to_string (status r) @ ''. Please retry later.'')))) \<and>
         (\<forall>r'. \<not> ok r' \<and> fetchProductInstances (Responds r') = fetchProductInstances (Responds r)
               \<longrightarrow> status r' = status r)"
proof (intro conjI allI impI)
  show "fetchProductInstances (Responds r)
           = Some (Inl (Error (''We could not fetch product instances. Server responded with error ''
                               @ to_string (status r) @ ''. Please retry later.'')))"
    using assms by (rule fetch_not_ok)
  show "getProductInstances (Responds r) browser h preloadProductLogos
           = (h, Some (Inl (Error (''We could not fetch product instances. Server responded with error ''
                                   @ to_string (status r) @ ''. Please retry later.''))))"
    by (simp add: getProductInstances_def fetch_not_ok [OF assms])
next
  fix r'
  assume "\<not> ok r' \<and> fetchProductInstances (Responds r') = fetchProductInstances (Responds r)"
  then have n: "\<not> ok r'"
    and e: "fetchProductInstances (Responds r') = fetchProductInstances (Responds r)"
    by blast+
  from e [unfolded fetch_not_ok [OF n] fetch_not_ok [OF assms]]
  have "to_string (status r') = to_string (status r)"
    by simp
  then show "status r' = status r" by (rule to_string_inj)
qed

theorem non_success_status_is_fetch_failure_witness:
  "\<not> ok \<lparr>ok = False, status = 500, body = NotJson\<rparr> \<and>
   getProductInstances (Responds \<lparr>ok = False, status = 500, body = NotJson\<rparr>) (\<lambda>i u. Loads 0)
       example_heap True
     = (example_heap,
        Some (Inl (Error ''We could not fetch product instances. Server responded with error 500. Please retry later.'')))"
proof -
  have n: "\<not> ok \<lparr>ok = False, status = 500, body = NotJson\<rparr>" by simp
  show ?thesis
    using non_success_status_is_fetch_failure [OF n, THEN conjunct2, THEN conjunct1,
            of "\<lambda>i u. Loads 0" example_heap True]
    by (simp add: to_string_500)
qed

text \<open>
  What the code does for absent data and for the failures it foresees: a body that parses
  to a falsy value (\<open>null\<close>, \<open>false\<close>, \<open>0\<close>, \<open>""\<close>) is replaced by the empty array, by
  \<open>|| []\<close>, and a failure of the transport is thrown again as an \<open>Error\<close> that asks to
  retry, as a status that is not a success is.
\<close>

lemma falsy_body_is_empty_catalog:
  assumes "ok r" and "body r = FalsyJson \<or> body r = JsonArray []"
  shows "fetchProductInstances (Responds r) = Some (Inr []) \<and>
         (\<exists>h' result. getProductInstances (Responds r) browser h preloadProductLogos
                         = (h', Some (Inr result)) \<and> arrayAt h' result = [])"
proof
  show f: "fetchProductInstances (Responds r) = Some (Inr [])"
    using assms by (auto simp: fetchProductInstances_def)
  show "\<exists>h' result. getProductInstances (Responds r) browser h preloadProductLogos
                         = (h', Some (Inr result)) \<and> arrayAt h' result = []"
    by (cases preloadProductLogos)
       (simp_all add: getProductInstances_def f new_array_def Promise_all_def)
qed

lemma transport_failure_is_wrapped:
  "fetchProductInstances (Throws m)
     = Some (Inl (Error (''We could not fetch product instances. '' @ m @ '' Please retry later.'')))"
  by (simp add: fetchProductInstances_def)

text \<open>
  C4. A successful response whose body is missing or empty should give the empty catalog.
  The code does not do so: for such a body \<open>response.json()\<close> rejects with a
  \<open>SyntaxError\<close> before \<open>|| []\<close> is reached, no \<open>try\<close> surrounds it, and both
  \<open>_fetchProductInstances\<close> and \<open>getProductInstances\<close> fail with this bare
  \<open>SyntaxError\<close>, with and without preloading, for the response of status 200 without a
  body.
\<close>

theorem empty_body_rejects_with_SyntaxError:
  "ok \<lparr>ok = True, status = 200, body = NoBody\<rparr> \<and>
   fetchProductInstances (Responds \<lparr>ok = True, status = 200, body = NoBody\<rparr>)
     = Some (Inl SyntaxError) \<and>
   getProductInstances (Responds \<lparr>ok = True, status = 200, body = NoBody\<rparr>) (\<lambda>i u. Loads 0)
       example_heap False
     = (example_heap, Some (Inl SyntaxError)) \<and>
   getProductInstances (Responds \<lparr>ok = True, status = 200, body = NoBody\<rparr>) (\<lambda>i u. Loads 0)
       example_heap True
     = (example_heap, Some (Inl SyntaxError))"
  by (simp add: fetchProductInstances_def getProductInstances_def)

section \<open>Preloading the logos\<close>

lemma productInstanceConverter_frame:
  assumes "productInstanceConverter h raw = (h', p)"
  shows "next_ref h < p \<and> p < next_ref h' \<and>
         logo (instanceAt h' p) = variant_logo (variant raw) \<and>
         (\<forall>r<next_ref h. instanceAt h' r = instanceAt h r)"
proof (cases "raw_flavors raw")
  case None
  with assms show ?thesis
    by (auto simp: productInstanceConverter_def new_array_def new_instance_def Let_def)
next
  case (Some rfs)
  let ?h1 = "fst (new_array h [])"
  let ?v = "\<lparr>instance_id = variant_id (variant raw), instance_name = variant_name (variant raw),
             description = raw_description raw, logo = variant_logo (variant raw),
             enabled = raw_enabled raw, comingSoon = raw_comingSoon raw,
             flavors = Some (next_ref h)\<rparr>"
  let ?h2 = "fst (new_instance ?h1 ?v)"
  obtain h3 fs where c: "convertFlavors ?h2 (Suc (next_ref h)) rfs = (h3, fs)"
    by (cases "convertFlavors ?h2 (Suc (next_ref h)) rfs")
  from convertFlavors_spec [OF c]
  have n3: "next_ref h3 = next_ref h + 2 + length rfs" and i3: "instanceAt h3 = instanceAt ?h2"
    by (simp_all add: new_array_def new_instance_def)
  from assms Some c have p: "p = Suc (next_ref h)"
    by (auto simp: productInstanceConverter_def new_array_def new_instance_def Let_def
          split: prod.splits)
  from assms Some c have n': "next_ref h' = Suc (next_ref h3)"
    by (auto simp: productInstanceConverter_def new_array_def new_instance_def Let_def
          split: prod.splits)
  from assms Some c have i': "instanceAt h' = (instanceAt h3)(p := (instanceAt h3 p)\<lparr>flavors := Some (next_ref h3)\<rparr>)"
    by (auto simp: productInstanceConverter_def new_array_def new_instance_def Let_def
          split: prod.splits)
  show ?thesis
    by (simp add: p n' n3 i' i3 new_array_def new_instance_def)
qed

lemma convertAll_spec:
  "convertAll h raws = (h', ps) \<Longrightarrow>
     length ps = length raws \<and> next_ref h \<le> next_ref h' \<and>
     (\<forall>i<length raws. ps ! i < next_ref h' \<and>
        logo (instanceAt h' (ps ! i)) = variant_logo (variant (raws ! i))) \<and>
     (\<forall>r<next_ref h. instanceAt h' r = instanceAt h r)"
proof (induction raws arbitrary: h h' ps)
  case Nil
  then show ?case by simp
next
  case (Cons raw raws)
  obtain h1 p where c: "productInstanceConverter h raw = (h1, p)"
    by (cases "productInstanceConverter h raw")
  obtain h2 qs where r: "convertAll h1 raws = (h2, qs)"
    by (cases "convertAll h1 raws")
  from Cons.prems c r have h': "h' = h2" and ps: "ps = p # qs"
    by simp_all
  from productInstanceConverter_frame [OF c]
  have p1: "next_ref h < p" "p < next_ref h1" "logo (instanceAt h1 p) = variant_logo (variant raw)"
    and k1: "\<And>r. r < next_ref h \<Longrightarrow> instanceAt h1 r = instanceAt h r"
    by simp_all
  from Cons.IH [OF r]
  have len: "length qs = length raws" and mono: "next_ref h1 \<le> next_ref h2"
    and el: "\<And>j. j < length raws \<Longrightarrow> qs ! j < next_ref h2 \<and>
               logo (instanceAt h2 (qs ! j)) = variant_logo (variant (raws ! j))"
    and k2: "\<And>r. r < next_ref h1 \<Longrightarrow> instanceAt h2 r = instanceAt h1 r"
    by simp_all
  have new: "ps ! i < next_ref h' \<and>
        logo (instanceAt h' (ps ! i)) = variant_logo (variant ((raw # raws) ! i))"
    if "i < length (raw # raws)" for i
  proof (cases i)
    case 0
    then show ?thesis using p1 mono k2 [of p] by (simp add: h' ps)
  next
    case (Suc j)
    with that have "j < length raws" by simp
    then show ?thesis using el [of j] by (simp add: h' ps Suc)
  qed
  have keep: "instanceAt h' r = instanceAt h r" if "r < next_ref h" for r
    using that k1 [of r] k2 [of r] p1 by (simp add: h')
  from len mono p1 new keep show ?case
    by (simp add: h' ps)
qed

lemma first_rejection_in_set:
  "first_rejection ps = Some (t, e) \<Longrightarrow> Rejected t e \<in> set ps"
  by (induction ps arbitrary: t e rule: first_rejection.induct)
     (auto split: option.splits if_splits)

lemma first_rejection_exists:
  "Rejected t e \<in> set ps \<Longrightarrow> \<exists>t' e'. first_rejection ps = Some (t', e')"
  by (induction ps rule: first_rejection.induct) (auto split: option.splits)

lemma first_rejection_earliest:
  "first_rejection ps = Some (t, e) \<Longrightarrow> Rejected t' e' \<in> set ps \<Longrightarrow> t \<le> t'"
proof (induction ps arbitrary: t e)
  case Nil
  then show ?case by simp
next
  case (Cons p ps)
  show ?case
  proof (cases p)
    case (Rejected u d)
    with Cons show ?thesis
      using first_rejection_exists [of t' e' ps]
      by (fastforce split: option.splits if_splits)
  next
    case (Fulfilled u v)
    with Cons show ?thesis by auto
  next
    case Pending
    with Cons show ?thesis by auto
  qed
qed

lemma first_rejection_none:
  "\<forall>p\<in>set ps. \<exists>t v. p = Fulfilled t v \<Longrightarrow> first_rejection ps = None"
  by (induction ps rule: first_rejection.induct) auto

lemma all_fulfilled_some:
  "\<forall>p\<in>set ps. \<exists>t v. p = Fulfilled t v \<Longrightarrow> \<exists>t vs. all_fulfilled ps = Some (t, vs)"
  by (induction ps rule: all_fulfilled.induct) auto

lemma await_all_rejected:
  assumes "Rejected t e \<in> set ps"
  shows "\<exists>t' e'. await (Promise_all ps) = Some (Inl e') \<and> Rejected t' e' \<in> set ps \<and>
           (\<forall>u d. Rejected u d \<in> set ps \<longrightarrow> t' \<le> u)"
proof -
  from first_rejection_exists [OF assms]
  obtain t' e' where f: "first_rejection ps = Some (t', e')" by blast
  then have "await (Promise_all ps) = Some (Inl e')"
    by (simp add: Promise_all_def)
  with f first_rejection_in_set [OF f] first_rejection_earliest [OF f] show ?thesis
    by blast
qed

lemma await_all_fulfilled:
  assumes "\<forall>p\<in>set ps. \<exists>t v. p = Fulfilled t v"
  shows "\<exists>vs. await (Promise_all ps) = Some (Inr vs)"
  using first_rejection_none [OF assms] all_fulfilled_some [OF assms]
  by (auto simp: Promise_all_def)

lemma preloadImage_Rejected_iff:
  "preloadImage outcome u = Rejected t e \<longleftrightarrow> outcome = Fails t \<and> e = ImageErrorEvent u"
  by (cases outcome) (auto simp: preloadImage_def)

lemma preloadImage_Fulfilled_iff:
  "preloadImage outcome u = Fulfilled t v \<longleftrightarrow> outcome = Loads t"
  by (cases outcome) (auto simp: preloadImage_def)

lemma getProductInstances_cases:
  assumes "fetchProductInstances net = Some (Inr raws)"
  shows "\<exists>h2 result P.
    getProductInstances net browser h False = (h2, Some (Inr result)) \<and>
    getProductInstances net browser h True =
       (case await (Promise_all P) of
          None \<Rightarrow> (h2, None)
        | Some (Inl e) \<Rightarrow> (h2, Some (Inl e))
        | Some (Inr loaded) \<Rightarrow> (h2, Some (Inr result))) \<and>
    length P = length raws \<and>
    (\<forall>i<length raws.
       P ! i = preloadImage (browser i (variant_logo (variant (raws ! i))))
                 (variant_logo (variant (raws ! i)))) \<and>
    arrayAt h2 result = snd (convertAll h raws)"
proof -
  obtain h1 ps where c: "convertAll h raws = (h1, ps)"
    by (cases "convertAll h raws")
  let ?h2 = "fst (new_array h1 ps)"
  let ?result = "snd (new_array h1 ps)"
  let ?P = "map (\<lambda>(i, r). preloadImage (browser i (logo (instanceAt ?h2 r))) (logo (instanceAt ?h2 r)))
              (enumerate 0 (arrayAt ?h2 ?result))"
  have a: "arrayAt ?h2 ?result = ps" and i2: "instanceAt ?h2 = instanceAt h1"
    by (simp_all add: new_array_def)
  from convertAll_spec [OF c]
  have len: "length ps = length raws"
    and lg: "\<And>i. i < length raws \<Longrightarrow> logo (instanceAt h1 (ps ! i)) = variant_logo (variant (raws ! i))"
    by simp_all
  have 1: "getProductInstances net browser h False = (?h2, Some (Inr ?result))"
    by (simp add: getProductInstances_def assms c case_prod_unfold Let_def)
  have 2: "getProductInstances net browser h True =
       (case await (Promise_all ?P) of
          None \<Rightarrow> (?h2, None)
        | Some (Inl e) \<Rightarrow> (?h2, Some (Inl e))
        | Some (Inr loaded) \<Rightarrow> (?h2, Some (Inr ?result)))"
    by (simp add: getProductInstances_def assms c case_prod_unfold Let_def
          cong: option.case_cong sum.case_cong)
  have 3: "length ?P = length raws"
    by (simp add: a len)
  have 4: "?P ! i = preloadImage (browser i (variant_logo (variant (raws ! i))))
                 (variant_logo (variant (raws ! i)))" if "i < length raws" for i
    using that lg [OF that] by (simp add: a i2 len nth_enumerate_eq)
  have 5: "arrayAt ?h2 ?result = snd (convertAll h raws)"
    by (simp add: a c)
  from 1 2 3 4 5 show ?thesis by blast
qed

text \<open>
  C6. Let the fetch succeed with the raw instances \<open>raws\<close>, and let logos be preloaded.
  If the image of some instance fails to load, the call rejects with the \<open>error\<close> event of
  an image that failed, the first one to fail, whatever becomes of the other images (loaded,
  failed later or never settled). If every image loads, the call returns what it returns
  without preloading: the array of the converted instances.
\<close>

theorem preload_failure_rejects:
  assumes "fetchProductInstances net = Some (Inr raws)"
  shows "((\<exists>i<length raws. \<exists>t. browser i (variant_logo (variant (raws ! i))) = Fails t) \<longrightarrow>
          (\<exists>j<length raws. \<exists>t.
             browser j (variant_logo (variant (raws ! j))) = Fails t \<and>
             (\<forall>k<length raws. \<forall>u. browser k (variant_logo (variant (raws ! k))) = Fails u \<longrightarrow> t \<le> u) \<and>
             snd (getProductInstances net browser h True)
               = Some (Inl (ImageErrorEvent (variant_logo (variant (raws ! j))))))) \<and>
         ((\<forall>i<length raws. \<exists>t. browser i (variant_logo (variant (raws ! i))) = Loads t) \<longrightarrow>
          getProductInstances net browser h True = getProductInstances net browser h False \<and>
          (\<exists>h' result. getProductInstances net browser h True = (h', Some (Inr result)) \<and>
                        arrayAt h' result = snd (convertAll h raws)))"
proof -
  let ?L = "\<lambda>i. variant_logo (variant (raws ! i))"
  from getProductInstances_cases [OF assms, where browser = browser and h = h]
  obtain h2 result P where
    F: "getProductInstances net browser h False = (h2, Some (Inr result))"
    and T: "getProductInstances net browser h True =
       (case await (Promise_all P) of
          None \<Rightarrow> (h2, None)
        | Some (Inl e) \<Rightarrow> (h2, Some (Inl e))
        | Some (Inr loaded) \<Rightarrow> (h2, Some (Inr result)))"
    and len: "length P = length raws"
    and nth': "\<forall>i<length raws. P ! i = preloadImage (browser i (?L i)) (?L i)"
    and arr: "arrayAt h2 result = snd (convertAll h raws)"
    by blast
  from nth' have nth: "\<And>i. i < length raws \<Longrightarrow> P ! i = preloadImage (browser i (?L i)) (?L i)"
    by blast
  have a: "\<exists>j<length raws. \<exists>t. browser j (?L j) = Fails t \<and>
             (\<forall>k<length raws. \<forall>u. browser k (?L k) = Fails u \<longrightarrow> t \<le> u) \<and>
             snd (getProductInstances net browser h True) = Some (Inl (ImageErrorEvent (?L j)))"
    if "\<exists>i<length raws. \<exists>t. browser i (?L i) = Fails t"
  proof -
    from that obtain i t where i: "i < length raws" and f: "browser i (?L i) = Fails t"
      by blast
    then have "P ! i = Rejected t (ImageErrorEvent (?L i))"
      by (simp add: nth preloadImage_Rejected_iff)
    with i len have "Rejected t (ImageErrorEvent (?L i)) \<in> set P"
      by (metis nth_mem)
    from await_all_rejected [OF this]
    obtain t' e' where w: "await (Promise_all P) = Some (Inl e')"
      and m: "Rejected t' e' \<in> set P"
      and first: "\<And>u d. Rejected u d \<in> set P \<Longrightarrow> t' \<le> u"
      by blast
    from m obtain j where j: "j < length P" and pj: "P ! j = Rejected t' e'"
      by (auto simp: in_set_conv_nth)
    from j pj have bj: "browser j (?L j) = Fails t'" and ej: "e' = ImageErrorEvent (?L j)"
      by (simp_all add: len nth preloadImage_Rejected_iff)
    have "t' \<le> u" if "k < length raws" "browser k (?L k) = Fails u" for k u
    proof -
      from that have "P ! k = Rejected u (ImageErrorEvent (?L k))"
        by (simp add: nth preloadImage_Rejected_iff)
      with that len have "Rejected u (ImageErrorEvent (?L k)) \<in> set P"
        by (metis nth_mem)
      then show ?thesis by (rule first)
    qed
    moreover have "snd (getProductInstances net browser h True) = Some (Inl (ImageErrorEvent (?L j)))"
      by (simp add: T w ej)
    ultimately show ?thesis using j bj len by auto
  qed
  have b: "getProductInstances net browser h True = getProductInstances net browser h False \<and>
          (\<exists>h' result. getProductInstances net browser h True = (h', Some (Inr result)) \<and>
                        arrayAt h' result = snd (convertAll h raws))"
    if "\<forall>i<length raws. \<exists>t. browser i (?L i) = Loads t"
  proof -
    have "\<forall>p\<in>set P. \<exists>t v. p = Fulfilled t v"
    proof
      fix p assume "p \<in> set P"
      then obtain i where i: "i < length P" and p: "p = P ! i"
        by (auto simp: in_set_conv_nth)
      with that len obtain t where "browser i (?L i) = Loads t" by auto
      with i len p show "\<exists>t v. p = Fulfilled t v"
        by (simp add: nth preloadImage_Fulfilled_iff)
    qed
    from await_all_fulfilled [OF this] obtain vs where "await (Promise_all P) = Some (Inr vs)" ..
    then have "getProductInstances net browser h True = (h2, Some (Inr result))"
      by (simp add: T)
    with F arr show ?thesis by simp
  qed
  from a b show ?thesis by blast
qed

theorem preload_failure_rejects_witness:
  "fetchProductInstances (Responds example_response)
     = Some (Inr [example_raw ''php'', example_raw ''go'', example_raw ''rust'']) \<and>
   example_browser 0 ''php.svg'' = Loads 3 \<and>
   example_browser 1 ''go.svg'' = Fails 5 \<and>
   example_browser 2 ''rust.svg'' = Loads 5 \<and>
   snd (getProductInstances (Responds example_response) example_browser example_heap True)
     = Some (Inl (ImageErrorEvent ''go.svg'')) \<and>
   (\<exists>result. snd (getProductInstances (Responds example_response) (\<lambda>i u. Loads i) example_heap True)
                = Some (Inr result))"
proof -
  let ?raws = "[example_raw ''php'', example_raw ''go'', example_raw ''rust'']"
  let ?L = "\<lambda>i. variant_logo (variant (?raws ! i))"
  have f: "fetchProductInstances (Responds example_response) = Some (Inr ?raws)"
    by (simp add: fetchProductInstances_def example_response_def)
  have b: "example_browser 0 ''php.svg'' = Loads 3" "example_browser 1 ''go.svg'' = Fails 5"
    "example_browser 2 ''rust.svg'' = Loads 5"
    by (simp_all add: example_browser_def)
  note t = preload_failure_rejects [OF f, where h = example_heap]
  have "\<exists>i<length ?raws. \<exists>t. example_browser i (?L i) = Fails t"
    by (rule exI [of _ 1]) (simp add: example_raw_def example_browser_def)
  from t [where browser = example_browser, THEN conjunct1, THEN mp, OF this]
  obtain j t where "example_browser j (?L j) = Fails t"
    and r: "snd (getProductInstances (Responds example_response) example_browser example_heap True)
              = Some (Inl (ImageErrorEvent (?L j)))"
    by blast
  then have "?L j = ''go.svg''"
    by (simp add: example_browser_def split: if_splits)
  with r have 1: "snd (getProductInstances (Responds example_response) example_browser example_heap True)
              = Some (Inl (ImageErrorEvent ''go.svg''))"
    by simp
  have "\<forall>i<length ?raws. \<exists>t. (\<lambda>i u. Loads i) i (?L i) = Loads t"
    by simp
  from t [where browser = "\<lambda>i u. Loads i", THEN conjunct2, THEN mp, OF this]
  obtain h' result where
    "getProductInstances (Responds example_response) (\<lambda>i u. Loads i) example_heap True
       = (h', Some (Inr result))"
    by blast
  then have "snd (getProductInstances (Responds example_response) (\<lambda>i u. Loads i) example_heap True)
                = Some (Inr result)"
    by simp
  then have 2: "\<exists>result. snd (getProductInstances (Responds example_response) (\<lambda>i u. Loads i) example_heap True)
                = Some (Inr result)" ..
  from f b 1 2 show ?thesis by blast
qed

section \<open>Selecting an instance\<close>

text \<open>
  C7. \<open>selectInstance\<close> (the handler \<open>onSelectProductInstance\<close>) makes the given instance
  the active one and leaves the selected flavors exactly as they were, whatever instance
  they belong to.
\<close>

theorem selectInstance_keeps_selectedFlavors:
  "selectedProductInstance (onSelectProductInstance st p) = Some p \<and>
   selectedFlavors (onSelectProductInstance st p) = selectedFlavors st"
  by (simp add: onSelectProductInstance_def)

section \<open>The selected flavors are kept in canonical order\<close>

lemma reachable_sorted:
  "reachable h st \<Longrightarrow>
   selectedFlavors st = [] \<or> (\<exists>fs. selectedFlavors st = array_sort (productFlavorComparator h) fs)"
  by (induction rule: reachable.induct)
     (auto simp: initial_state_def onSelectProductInstance_def onSelectProductFlavor_def
        onUnselectProductFlavor_def setSelectedFlavors_def)

lemma comparator_price_ascending:
  assumes "price (flavorAt h a) \<noteq> NaN" "price (flavorAt h b) \<noteq> NaN"
    and "productFlavorComparator h a b \<le> 0"
  shows "\<not> num_lt (price (flavorAt h b)) (price (flavorAt h a))"
  using assms by (auto simp: productFlavorComparator_def Let_def num_lt_iff split: if_splits)

text \<open>
  C8. In every state reachable from the initial one by \<open>selectInstance\<close>, \<open>addFlavor\<close>
  and \<open>removeFlavor\<close>, the selected flavors are listed in the order of
  \<open>productFlavorComparator\<close>: no flavor stands before one that the comparator puts first,
  so prices ascend along the list. The prices are taken to be Numbers other than \<open>NaN\<close>,
  as the prices of the data model are and as every price that the conversion makes of such
  a Number is; on \<open>NaN\<close> no order by price exists. The order of insertion does not show:
  in the example M (419.04) is added before S (100.0) and S is listed first.
\<close>

theorem selectedFlavors_canonical_order:
  assumes "reachable h st" and "\<forall>f\<in>set (selectedFlavors st). price (flavorAt h f) \<noteq> NaN"
  shows "sorted_wrt (\<lambda>a b. productFlavorComparator h a b \<le> 0) (renderSelectedFlavors st) \<and>
         sorted_wrt (\<lambda>a b. \<not> num_lt (price (flavorAt h b)) (price (flavorAt h a)))
           (renderSelectedFlavors st)"
proof -
  have c: "consistent_on (productFlavorComparator h) (set (selectedFlavors st))"
    using assms(2) by (rule consistent_productFlavorComparator)
  have "ordered_by (productFlavorComparator h) (selectedFlavors st)"
    using reachable_sorted [OF assms(1)]
  proof
    assume "selectedFlavors st = []"
    then show ?thesis by (simp add: ordered_by_def)
  next
    assume "\<exists>fs. selectedFlavors st = array_sort (productFlavorComparator h) fs"
    then obtain fs where fs: "selectedFlavors st = array_sort (productFlavorComparator h) fs" ..
    then have "set fs = set (selectedFlavors st)" by (simp add: set_array_sort)
    with c have "consistent_on (productFlavorComparator h) (set fs)" by simp
    then show ?thesis unfolding fs by (rule ordered_by_array_sort)
  qed
  then have 1: "sorted_wrt (\<lambda>a b. productFlavorComparator h a b \<le> 0) (selectedFlavors st)"
    by (simp add: ordered_by_def)
  have 2: "sorted_wrt (\<lambda>a b. \<not> num_lt (price (flavorAt h b)) (price (flavorAt h a)))
           (selectedFlavors st)"
    by (rule sorted_wrt_mono_rel [OF _ 1]) (use assms(2) comparator_price_ascending in blast)
  from 1 2 show ?thesis by (simp add: renderSelectedFlavors_def)
qed

lemma example_add_M_then_S:
  "onSelectProductFlavor example_heap (onSelectProductFlavor example_heap initial_state 2) 3
     = \<lparr>selectedProductInstance = None, selectedFlavors = [3, 2]\<rparr>"
  by (simp add: onSelectProductFlavor_def setSelectedFlavors_def initial_state_def array_sort_def
        example_flavor_order)

theorem selectedFlavors_canonical_order_witness:
  "reachable example_heap \<lparr>selectedProductInstance = None, selectedFlavors = [3, 2]\<rparr> \<and>
   price (flavorAt example_heap 3) \<noteq> NaN \<and> price (flavorAt example_heap 2) \<noteq> NaN \<and>
   sorted_wrt (\<lambda>a b. productFlavorComparator example_heap a b \<le> 0) [3, 2] \<and>
   sorted_wrt (\<lambda>a b. \<not> num_lt (price (flavorAt example_heap b)) (price (flavorAt example_heap a)))
     [3, 2]"
proof -
  let ?st = "\<lparr>selectedProductInstance = None, selectedFlavors = [3, 2]\<rparr>"
  have r: "reachable example_heap ?st"
    using reachable.addFlavor [OF reachable.addFlavor [OF reachable.initial], of example_heap 2 3]
    by (simp only: example_add_M_then_S)
  have n: "\<forall>f\<in>set (selectedFlavors ?st). price (flavorAt example_heap f) \<noteq> NaN"
    by (simp add: example_prices)
  show ?thesis
    using selectedFlavors_canonical_order [OF r n] r n
    by (simp add: renderSelectedFlavors_def)
qed


section \<open>The running total\<close>

text \<open>
  C9. The total of \<open>renderHeader\<close> is the sum of the prices of the selected flavors, taken
  from the left with the Number addition and nothing else: it is 0 for the empty selection,
  a flavor at the end of the selection adds its price to the total of the others, and the
  prices 419.04 and 100.0 give 519.04.
\<close>

theorem renderHeader_total:
  "renderHeader h (st\<lparr>selectedFlavors := []\<rparr>) = decimal_literal 0 0 \<and>
   renderHeader h (st\<lparr>selectedFlavors := fs @ [f]\<rparr>)
     = num_add (renderHeader h (st\<lparr>selectedFlavors := fs\<rparr>)) (price (flavorAt h f)) \<and>
   (map (\<lambda>f. price (flavorAt h f)) (renderSelectedFlavors st)
       = [decimal_literal 41904 2, decimal_literal 1000 1]
     \<longrightarrow> renderHeader h st = decimal_literal 51904 2)"
proof (intro conjI impI)
  show "renderHeader h (st\<lparr>selectedFlavors := []\<rparr>) = decimal_literal 0 0"
    by (simp add: renderHeader_def)
  show "renderHeader h (st\<lparr>selectedFlavors := fs @ [f]\<rparr>)
     = num_add (renderHeader h (st\<lparr>selectedFlavors := fs\<rparr>)) (price (flavorAt h f))"
    by (simp add: renderHeader_def)
next
  assume "map (\<lambda>f. price (flavorAt h f)) (renderSelectedFlavors st)
       = [decimal_literal 41904 2, decimal_literal 1000 1]"
  then have "renderHeader h st
     = num_add (num_add (decimal_literal 0 0) (decimal_literal 41904 2)) (decimal_literal 1000 1)"
    by (simp add: renderHeader_def renderSelectedFlavors_def)
  also have "\<dots> = decimal_literal 51904 2"
    by (simp only: literal_0 literal_419_04 literal_100_0 literal_519_04 add_0_419_04 add_419_04_100)
  finally show "renderHeader h st = decimal_literal 51904 2" .
qed

theorem renderHeader_total_witness:
  "map (\<lambda>f. price (flavorAt example_heap f)) (renderSelectedFlavors (example_state [2, 3]))
     = [decimal_literal 41904 2, decimal_literal 1000 1] \<and>
   renderHeader example_heap (example_state [2, 3]) = decimal_literal 51904 2"
proof -
  have p: "map (\<lambda>f. price (flavorAt example_heap f)) (renderSelectedFlavors (example_state [2, 3]))
     = [decimal_literal 41904 2, decimal_literal 1000 1]"
    by (simp add: example_state_def renderSelectedFlavors_def example_heap_def)
  have "renderHeader example_heap (example_state [2, 3]) = decimal_literal 51904 2"
    by (rule renderHeader_total [THEN conjunct2, THEN conjunct2, THEN mp, OF p])
  with p show ?thesis ..
qed

section \<open>Rendering the catalog\<close>

lemma productInstanceComparator_cong:
  "instanceAt h' = instanceAt h \<Longrightarrow> productInstanceComparator h' = productInstanceComparator h"
  by (intro ext) (simp add: productInstanceComparator_def)

text \<open>
  C10. \<open>renderProductInstances\<close> sorts the array \<open>this.props.productInstances\<close> itself: the
  \<open>items\<close> it renders are that same array, which holds afterwards its former elements in
  the order of \<open>productInstanceComparator\<close>, and so differs from what the caller supplied
  whenever that was not in this order. No other array and no object changes.
\<close>

theorem renderProductInstances_sorts_in_place:
  assumes "renderProductInstances h props = (h', items)"
  shows "items = productInstances props \<and>
         arrayAt h' items = array_sort (productInstanceComparator h) (arrayAt h items) \<and>
         mset (arrayAt h' items) = mset (arrayAt h items) \<and>
         sorted_wrt (\<lambda>a b. productInstanceComparator h' a b \<le> 0) (arrayAt h' items) \<and>
         (\<not> sorted_wrt (\<lambda>a b. productInstanceComparator h a b \<le> 0) (arrayAt h items)
            \<longrightarrow> arrayAt h' items \<noteq> arrayAt h items) \<and>
         (\<forall>r. r \<noteq> items \<longrightarrow> arrayAt h' r = arrayAt h r) \<and>
         instanceAt h' = instanceAt h \<and> flavorAt h' = flavorAt h"
proof -
  let ?cmp = "productInstanceComparator h"
  from assms have items: "items = productInstances props"
    and h': "h' = h\<lparr>arrayAt := (arrayAt h)(items := array_sort ?cmp (arrayAt h items))\<rparr>"
    by (auto simp: renderProductInstances_def Let_def)
  have a: "arrayAt h' items = array_sort ?cmp (arrayAt h items)"
    by (simp add: h')
  have i: "instanceAt h' = instanceAt h" and f: "flavorAt h' = flavorAt h"
    by (simp_all add: h')
  have c: "productInstanceComparator h' = ?cmp"
    using i by (rule productInstanceComparator_cong)
  have o: "ordered_by ?cmp (array_sort ?cmp (arrayAt h items))"
    by (rule ordered_by_array_sort) (rule consistent_productInstanceComparator)
  then have s: "sorted_wrt (\<lambda>a b. productInstanceComparator h' a b \<le> 0) (arrayAt h' items)"
    by (simp add: a c ordered_by_def)
  have n: "arrayAt h' items \<noteq> arrayAt h items"
    if "\<not> sorted_wrt (\<lambda>a b. ?cmp a b \<le> 0) (arrayAt h items)"
    using that s by (auto simp: c)
  have r: "\<forall>r. r \<noteq> items \<longrightarrow> arrayAt h' r = arrayAt h r"
    by (simp add: h')
  from items a s n r i f show ?thesis
    by (simp add: mset_array_sort)
qed

theorem renderProductInstances_sorts_in_place_witness:
  "renderProductInstances example_heap \<lparr>productInstances = 6\<rparr>
     = (example_heap\<lparr>arrayAt := (arrayAt example_heap)(6 := [1, 0])\<rparr>, 6) \<and>
   arrayAt example_heap 6 = [0, 1] \<and>
   \<not> sorted_wrt (\<lambda>a b. productInstanceComparator example_heap a b \<le> 0) (arrayAt example_heap 6) \<and>
   arrayAt (example_heap\<lparr>arrayAt := (arrayAt example_heap)(6 := [1, 0])\<rparr>) 6 = [1, 0] \<and>
   arrayAt (example_heap\<lparr>arrayAt := (arrayAt example_heap)(6 := [1, 0])\<rparr>) 6
     \<noteq> arrayAt example_heap 6"
proof -
  let ?h' = "example_heap\<lparr>arrayAt := (arrayAt example_heap)(6 := [1, 0])\<rparr>"
  have a: "arrayAt example_heap 6 = [0, 1]"
    by (simp add: example_heap_def)
  have e: "renderProductInstances example_heap \<lparr>productInstances = 6\<rparr> = (?h', 6)"
    by (simp add: renderProductInstances_def a array_sort_def example_instance_order)
  have u: "\<not> sorted_wrt (\<lambda>a b. productInstanceComparator example_heap a b \<le> 0)
              (arrayAt example_heap 6)"
    by (simp add: a example_instance_order)
  have b: "arrayAt ?h' 6 = [1, 0]"
    by simp
  have n: "arrayAt ?h' 6 \<noteq> arrayAt example_heap 6"
    by (rule renderProductInstances_sorts_in_place [OF e, THEN conjunct2, THEN conjunct2,
               THEN conjunct2, THEN conjunct2, THEN conjunct1, THEN mp, OF u])
  show ?thesis
    by (intro conjI e a u b n)
qed

section \<open>Adding a flavor\<close>

text \<open>
  C2 as stated fails: \<open>onSelectProductFlavor\<close> does not look whether the flavor is selected
  already. With M (2) selected, adding M again gives the selection M, M.
\<close>

theorem addFlavor_twice_counterexample:
  "2 \<in> set (selectedFlavors (example_state [2])) \<and>
   selectedFlavors (onSelectProductFlavor example_heap (example_state [2]) 2) = [2, 2] \<and>
   selectedFlavors (onSelectProductFlavor example_heap (example_state [2]) 2)
     \<noteq> selectedFlavors (example_state [2])"
  by (simp add: example_state_def onSelectProductFlavor_def setSelectedFlavors_def array_sort_def
        example_flavor_order)

lemma ordered_by_productFlavorComparator:
  assumes "\<forall>f\<in>set fs. price (flavorAt h f) \<noteq> NaN"
  shows "sorted_wrt (\<lambda>a b. productFlavorComparator h a b \<le> 0)
           (array_sort (productFlavorComparator h) fs)"
  using ordered_by_array_sort [OF consistent_productFlavorComparator [OF assms]]
  by (simp add: ordered_by_def)

text \<open>
  C2, amended. \<open>addFlavor\<close> (the handler \<open>onSelectProductFlavor\<close>) appends the flavor to the
  selected flavors and sorts: the selection has one more element, one more occurrence of the
  flavor, also when it was selected already, and is in the order of
  \<open>productFlavorComparator\<close> (for prices other than \<open>NaN\<close>); the active instance stays. What
  keeps a flavor from being added twice is the selectable-flavor view of
  \<open>renderProductFlavors\<close>: a flavor that is selected is not in it.
\<close>

theorem addFlavor_appends_and_sorts:
  "mset (selectedFlavors (onSelectProductFlavor h st f)) = add_mset f (mset (selectedFlavors st)) \<and>
   length (selectedFlavors (onSelectProductFlavor h st f)) = Suc (length (selectedFlavors st)) \<and>
   selectedProductInstance (onSelectProductFlavor h st f) = selectedProductInstance st \<and>
   ((\<forall>g\<in>set (selectedFlavors st). price (flavorAt h g) \<noteq> NaN) \<and> price (flavorAt h f) \<noteq> NaN
      \<longrightarrow> sorted_wrt (\<lambda>a b. productFlavorComparator h a b \<le> 0)
            (selectedFlavors (onSelectProductFlavor h st f))) \<and>
   (f \<in> set (selectedFlavors st) \<longrightarrow> f \<notin> set (renderProductFlavors h st))"
proof (intro conjI impI)
  show "mset (selectedFlavors (onSelectProductFlavor h st f)) = add_mset f (mset (selectedFlavors st))"
    by (simp add: onSelectProductFlavor_def setSelectedFlavors_def mset_array_sort)
  show "length (selectedFlavors (onSelectProductFlavor h st f)) = Suc (length (selectedFlavors st))"
    by (simp add: onSelectProductFlavor_def setSelectedFlavors_def length_array_sort)
  show "selectedProductInstance (onSelectProductFlavor h st f) = selectedProductInstance st"
    by (simp add: onSelectProductFlavor_def setSelectedFlavors_def)
next
  assume "(\<forall>g\<in>set (selectedFlavors st). price (flavorAt h g) \<noteq> NaN) \<and> price (flavorAt h f) \<noteq> NaN"
  then have "\<forall>g\<in>set (selectedFlavors st @ [f]). price (flavorAt h g) \<noteq> NaN" by simp
  then show "sorted_wrt (\<lambda>a b. productFlavorComparator h a b \<le> 0)
            (selectedFlavors (onSelectProductFlavor h st f))"
    unfolding onSelectProductFlavor_def setSelectedFlavors_def
    using ordered_by_productFlavorComparator by simp
next
  assume "f \<in> set (selectedFlavors st)"
  then show "f \<notin> set (renderProductFlavors h st)"
    by (simp add: renderProductFlavors_def set_array_sort)
qed

theorem addFlavor_appends_and_sorts_witness:
  "selectedFlavors (onSelectProductFlavor example_heap (example_state [3]) 2) = [3, 2] \<and>
   price (flavorAt example_heap 3) \<noteq> NaN \<and> price (flavorAt example_heap 2) \<noteq> NaN \<and>
   sorted_wrt (\<lambda>a b. productFlavorComparator example_heap a b \<le> 0) [3, 2] \<and>
   3 \<in> set (selectedFlavors (example_state [3])) \<and>
   renderProductFlavors example_heap (example_state [3]) = [2] \<and>
   3 \<notin> set (renderProductFlavors example_heap (example_state [3]))"
proof -
  have s: "selectedFlavors (onSelectProductFlavor example_heap (example_state [3]) 2) = [3, 2]"
    by (simp add: example_state_def onSelectProductFlavor_def setSelectedFlavors_def array_sort_def
          example_flavor_order)
  have n: "(\<forall>g\<in>set (selectedFlavors (example_state [3])). price (flavorAt example_heap g) \<noteq> NaN)
             \<and> price (flavorAt example_heap 2) \<noteq> NaN"
    by (simp add: example_state_def example_prices)
  have m: "3 \<in> set (selectedFlavors (example_state [3]))"
    by (simp add: example_state_def)
  have v: "renderProductFlavors example_heap (example_state [3]) = [2]"
    by (simp add: renderProductFlavors_def example_state_def example_heap_def array_sort_def)
  note t = addFlavor_appends_and_sorts [where h = example_heap and st = "example_state [3]"]
  have "sorted_wrt (\<lambda>a b. productFlavorComparator example_heap a b \<le> 0)
          (selectedFlavors (onSelectProductFlavor example_heap (example_state [3]) 2))"
    by (rule t [where f = 2, THEN conjunct2, THEN conjunct2, THEN conjunct2, THEN conjunct1,
                THEN mp, OF n])
  moreover have "3 \<notin> set (renderProductFlavors example_heap (example_state [3]))"
    by (rule t [where f = 3, THEN conjunct2, THEN conjunct2, THEN conjunct2, THEN conjunct2,
                THEN mp, OF m])
  ultimately show ?thesis
    using s n m v by (simp add: example_state_def)
qed

section \<open>Removing a flavor\<close>

text \<open>
  C3 as stated fails: \<open>onUnselectProductFlavor\<close> compares objects with \<open>!==\<close>, not the
  pair of instance identifier and name. The objects 3 and 4 have the same instance
  identifier and the same name; with 3 selected, removing 4 leaves 3 selected.
\<close>

theorem removeFlavor_identity_counterexample:
  "same_identity example_heap 3 4 \<and>
   3 \<in> set (selectedFlavors (example_state [3])) \<and>
   3 \<in> set (selectedFlavors (onUnselectProductFlavor example_heap (example_state [3]) 4))"
  by (simp add: same_identity_def example_names example_state_def onUnselectProductFlavor_def
        setSelectedFlavors_def array_sort_def)

text \<open>
  C3, amended. \<open>removeFlavor\<close> (the handler \<open>onUnselectProductFlavor\<close>) removes from the
  selected flavors exactly the occurrences of the object it is given, whatever the fields of
  the others; the active instance stays. It always returns a state (there is no error):
  when the object is not selected, the selection keeps its elements, and the state is the
  same when the selection was in the order of \<open>productFlavorComparator\<close>.
\<close>

theorem removeFlavor_by_reference:
  "mset (selectedFlavors (onUnselectProductFlavor h st f))
     = filter_mset (\<lambda>g. g \<noteq> f) (mset (selectedFlavors st)) \<and>
   set (selectedFlavors (onUnselectProductFlavor h st f)) = set (selectedFlavors st) - {f} \<and>
   selectedProductInstance (onUnselectProductFlavor h st f) = selectedProductInstance st \<and>
   (f \<notin> set (selectedFlavors st)
      \<longrightarrow> mset (selectedFlavors (onUnselectProductFlavor h st f)) = mset (selectedFlavors st)) \<and>
   (f \<notin> set (selectedFlavors st) \<and>
    sorted_wrt (\<lambda>a b. productFlavorComparator h a b \<le> 0) (selectedFlavors st)
      \<longrightarrow> onUnselectProductFlavor h st f = st)"
proof (intro conjI impI)
  show "mset (selectedFlavors (onUnselectProductFlavor h st f))
     = filter_mset (\<lambda>g. g \<noteq> f) (mset (selectedFlavors st))"
    by (simp add: onUnselectProductFlavor_def setSelectedFlavors_def mset_array_sort)
  show "set (selectedFlavors (onUnselectProductFlavor h st f)) = set (selectedFlavors st) - {f}"
    by (auto simp: onUnselectProductFlavor_def setSelectedFlavors_def set_array_sort)
  show "selectedProductInstance (onUnselectProductFlavor h st f) = selectedProductInstance st"
    by (simp add: onUnselectProductFlavor_def setSelectedFlavors_def)
next
  assume "f \<notin> set (selectedFlavors st)"
  then have "filter (\<lambda>g. g \<noteq> f) (selectedFlavors st) = selectedFlavors st"
    by (auto simp: filter_id_conv)
  then show "mset (selectedFlavors (onUnselectProductFlavor h st f)) = mset (selectedFlavors st)"
    by (simp add: onUnselectProductFlavor_def setSelectedFlavors_def mset_array_sort)
next
  assume a: "f \<notin> set (selectedFlavors st) \<and>
    sorted_wrt (\<lambda>a b. productFlavorComparator h a b \<le> 0) (selectedFlavors st)"
  then have "filter (\<lambda>g. g \<noteq> f) (selectedFlavors st) = selectedFlavors st"
    by (auto simp: filter_id_conv)
  moreover have "array_sort (productFlavorComparator h) (selectedFlavors st) = selectedFlavors st"
    using a by (intro array_sort_ordered) (simp add: ordered_by_def)
  ultimately show "onUnselectProductFlavor h st f = st"
    by (simp add: onUnselectProductFlavor_def setSelectedFlavors_def)
qed

theorem removeFlavor_by_reference_witness:
  "4 \<notin> set (selectedFlavors (example_state [3, 2])) \<and>
   sorted_wrt (\<lambda>a b. productFlavorComparator example_heap a b \<le> 0)
     (selectedFlavors (example_state [3, 2])) \<and>
   onUnselectProductFlavor example_heap (example_state [3, 2]) 4 = example_state [3, 2] \<and>
   selectedFlavors (onUnselectProductFlavor example_heap (example_state [3, 2]) 3) = [2]"
proof -
  have a: "4 \<notin> set (selectedFlavors (example_state [3, 2])) \<and>
    sorted_wrt (\<lambda>a b. productFlavorComparator example_heap a b \<le> 0)
      (selectedFlavors (example_state [3, 2]))"
    by (simp add: example_state_def example_flavor_order)
  have "onUnselectProductFlavor example_heap (example_state [3, 2]) 4 = example_state [3, 2]"
    by (rule removeFlavor_by_reference [THEN conjunct2, THEN conjunct2, THEN conjunct2,
               THEN conjunct2, THEN mp, OF a])
  moreover have "selectedFlavors (onUnselectProductFlavor example_heap (example_state [3, 2]) 3) = [2]"
    by (simp add: example_state_def onUnselectProductFlavor_def setSelectedFlavors_def array_sort_def)
  ultimately show ?thesis using a by simp
qed

end
